theory Spec2Isabelle
  imports Main
begin

section \<open>JavaScript strings\<close>

text \<open>
  Strings are lists of code units, a \<open>char\<close> being one of the code units U+0000 to
  U+00FF (ASCII and the Latin-1 supplement); the code units above U+00FF are not
  represented. The operations below are the \<^verbatim>\<open>String\<close> and \<^verbatim>\<open>Array\<close>
  built-ins that \<^verbatim>\<open>src/server/processor.ts\<close> calls, on that range.
\<close>

abbreviation NL :: string where
  "NL \<equiv> [CHR 0x0A]"

text \<open>
  \<^verbatim>\<open>String.prototype.trim\<close>: white space and line terminators go, at both ends.
  Below U+0100 these are the tab, the line feed, the vertical tab, the form feed, the
  carriage return, the space and the no-break space U+00A0.
\<close>

definition is_whitespace :: "char \<Rightarrow> bool" where
  "is_whitespace c \<longleftrightarrow>
     c = CHR '' '' \<or> c = CHR 0x09 \<or> c = CHR 0x0A \<or> c = CHR 0x0B \<or> c = CHR 0x0C \<or> c = CHR 0x0D
     \<or> c = CHR 0xA0"

definition trim :: "string \<Rightarrow> string" where
  "trim s = rev (dropWhile is_whitespace (rev (dropWhile is_whitespace s)))"

text \<open>\<^verbatim>\<open>s.split("\n")\<close>: the empty string gives one empty line.\<close>

fun split_nl :: "string \<Rightarrow> string list" where
  "split_nl [] = [[]]"
| "split_nl (c # cs) =
     (if c = CHR 0x0A then [] # split_nl cs
      else (case split_nl cs of
              [] \<Rightarrow> [[c]]
            | l # ls \<Rightarrow> (c # l) # ls))"

text \<open>\<^verbatim>\<open>xs.join("\n")\<close>.\<close>

fun join_nl :: "string list \<Rightarrow> string" where
  "join_nl [] = []"
| "join_nl [x] = x"
| "join_nl (x # y # ys) = x @ NL @ join_nl (y # ys)"

text \<open>\<^verbatim>\<open>s.replace(t, "")\<close> with a string pattern: the first occurrence of \<open>t\<close> goes.\<close>

fun replace_first :: "string \<Rightarrow> string \<Rightarrow> string" where
  "replace_first t [] = []"
| "replace_first t (c # cs) =
     (if take (length t) (c # cs) = t then drop (length t) (c # cs)
      else c # replace_first t cs)"

text \<open>
  \<^verbatim>\<open>s.toLowerCase()\<close>: below U+0100 the upper-case letters are A to Z and U+00C0
  to U+00DE without the multiplication sign U+00D7; each has its lower-case letter 32
  places on.
\<close>

definition lower_char :: "char \<Rightarrow> char" where
  "lower_char c =
     (let n = (of_char c :: nat)
      in if (65 \<le> n \<and> n \<le> 90) \<or> (192 \<le> n \<and> n \<le> 222 \<and> n \<noteq> 215)
         then char_of (n + 32) else c)"

definition toLowerCase :: "string \<Rightarrow> string" where
  "toLowerCase s = map lower_char s"

text \<open>A non-negative integer as JavaScript prints it in a string concatenation.\<close>

definition digit_char :: "nat \<Rightarrow> char" where
  "digit_char d = ''0123456789'' ! d"

fun string_of_nat :: "nat \<Rightarrow> string" where
  "string_of_nat n =
     (if n < 10 then [digit_char n] else string_of_nat (n div 10) @ [digit_char (n mod 10)])"

declare string_of_nat.simps [simp del]

section \<open>Data model\<close>

text \<open>
  Modelled from the spec: the interfaces \<^verbatim>\<open>EmbedderDocumentSegment\<close>,
  \<^verbatim>\<open>EmbedderDocument\<close>, \<^verbatim>\<open>FaqSource\<close>, \<^verbatim>\<open>FlarumDiscussion\<close>,
  \<^verbatim>\<open>VectorMetadata\<close> and \<^verbatim>\<open>ProcessingJob\<close> are declared in
  \<^verbatim>\<open>src/common/api.ts\<close>, which is not among the sources; their fields are those
  that \<^verbatim>\<open>processor.ts\<close> reads and writes, with the types of section 3 of the
  specification. The components of an embedding are a type parameter: no claim computes
  with them.
\<close>

record 'f EmbedderDocumentSegment =
  seg_text :: string
  tokenCount :: nat
  embedding :: "'f list"

record 'f EmbedderDocument =
  uri :: string
  title :: string
  doc_text :: string
  segments :: "'f EmbedderDocumentSegment list"

text \<open>
  A value that a \<^verbatim>\<open>throw\<close> raises: an \<^verbatim>\<open>Error\<close> object with its message
  and, when the runtime recorded one, its stack trace; or any other value, kept as its
  JSON text. The throw sites below build \<open>Error msg None\<close>: what the runtime puts in
  the trace is not part of the model.
\<close>

datatype thrown =
  Error (message: string) (stack: "string option")
| NonError (json: string)

text \<open>
  \<^verbatim>\<open>Embedder.tokenize\<close> (in \<^verbatim>\<open>src/server/embedder.ts\<close>, not among the
  sources) is a parameter \<open>tokenize\<close> of every function that counts tokens; so is the
  splitter of \<^verbatim>\<open>langchain/text_splitter\<close>, as \<open>splitText chunkSize chunkOverlap\<close>.
\<close>

type_synonym tokenizer = "string \<Rightarrow> nat list"
type_synonym splitter = "nat \<Rightarrow> nat \<Rightarrow> string \<Rightarrow> string list"

definition recursiveSplit ::
  "tokenizer \<Rightarrow> splitter \<Rightarrow> nat \<Rightarrow> nat \<Rightarrow> string \<Rightarrow> 'f EmbedderDocumentSegment list"
where
  "recursiveSplit tokenize splitText chunkSize chunkOverlap txt =
     map (\<lambda>split. \<lparr>seg_text = split, tokenCount = length (tokenize split), embedding = []\<rparr>)
       (splitText chunkSize chunkOverlap txt)"

section \<open>The FAQ extractor\<close>

record FaqEntry =
  faq_id :: string
  questions :: string
  answer :: string

record FaqSource =
  faq_source_id :: string
  faqs :: "FaqEntry list"

definition faq_document :: "string \<Rightarrow> FaqEntry \<Rightarrow> 'f EmbedderDocument" where
  "faq_document source_id entry =
     \<lparr>uri = ''faq://'' @ source_id @ ''/'' @ faq_id entry,
      title = questions entry,
      doc_text = questions entry @ NL @ NL @ answer entry,
      segments = []\<rparr>"

text \<open>The loop over the entries (lines 135 to 142).\<close>

definition faq_documents :: "FaqSource \<Rightarrow> 'f EmbedderDocument list" where
  "faq_documents source = map (faq_document (faq_source_id source)) (faqs source)"

text \<open>The hook that \<^verbatim>\<open>FaqProccessor.process\<close> passes to \<^verbatim>\<open>embedDocuments\<close>.\<close>

definition faq_hook :: "tokenizer \<Rightarrow> 'f EmbedderDocument \<Rightarrow> thrown + 'f EmbedderDocument" where
  "faq_hook tokenize doc =
     (let tokenCount = length (tokenize (doc_text doc)) in
      if tokenCount > 500 then
        Inl (Error (''Token count of FAQ entry '' @ [CHR 0x27] @ title doc @ [CHR 0x27]
                     @ '' > 500, make it smaller.'') None)
      else
        Inr (doc\<lparr>segments := [\<lparr>seg_text = doc_text doc, tokenCount = tokenCount, embedding = []\<rparr>]\<rparr>))"

text \<open>
  Modelled from the spec: \<^verbatim>\<open>Embedder.embedDocuments\<close> is in
  \<^verbatim>\<open>src/server/embedder.ts\<close>, not among the sources. Section 4.2 of the
  specification: the per-document hook runs on every document, in order, before the
  embedding; the first hook that raises ends the run. The embedding itself, which fills
  the \<open>embedding\<close> of each segment and changes nothing else, is left out.
\<close>

fun embedDocuments ::
  "('f EmbedderDocument \<Rightarrow> thrown + 'f EmbedderDocument) \<Rightarrow> 'f EmbedderDocument list
     \<Rightarrow> thrown + 'f EmbedderDocument list"
where
  "embedDocuments hook [] = Inr []"
| "embedDocuments hook (doc # docs) =
     (case hook doc of
        Inl e \<Rightarrow> Inl e
      | Inr doc' \<Rightarrow>
          (case embedDocuments hook docs of
             Inl e \<Rightarrow> Inl e
           | Inr docs' \<Rightarrow> Inr (doc' # docs')))"

definition FaqProccessor_process ::
  "tokenizer \<Rightarrow> FaqSource \<Rightarrow> thrown + 'f EmbedderDocument list"
where
  "FaqProccessor_process tokenize source = embedDocuments (faq_hook tokenize) (faq_documents source)"

section \<open>The Flarum extractor\<close>

record FlarumPost =
  content :: string
  userName :: string
  detectedLang :: string

text \<open>\<open>posts\<close> is \<open>None\<close> where the export has no \<^verbatim>\<open>posts\<close> array.\<close>

record FlarumDiscussion =
  discussionId :: string
  discussion_title :: string
  posts :: "FlarumPost list option"

record FlarumSource =
  flarum_source_id :: string
  apiUrl :: string
  forumUrl :: string
  staff :: "string list"

definition endsWith :: "string \<Rightarrow> string \<Rightarrow> bool" where
  "endsWith s t \<longleftrightarrow> length t \<le> length s \<and> drop (length s - length t) s = t"

text \<open>The body of the loop over the posts, after the two filters (lines 187 to 208).\<close>

definition flarum_post_document ::
  "tokenizer \<Rightarrow> splitter \<Rightarrow> string \<Rightarrow> string \<Rightarrow> FlarumPost \<Rightarrow> 'f EmbedderDocument"
where
  "flarum_post_document tokenize splitText dtitle postUri post =
     (let tokenCount = length (tokenize (content post));
          content' = dtitle @ NL @ content post;
          segs = (if tokenCount > 500
                  then recursiveSplit tokenize splitText 1024 0 content'
                  else [\<lparr>seg_text = content', tokenCount = tokenCount, embedding = []\<rparr>])
      in \<lparr>uri = postUri, title = dtitle, doc_text = [], segments = segs\<rparr>)"

text \<open>
  The loop over the posts of one discussion; \<open>staffSet\<close> holds the lower-cased staff
  names, \<open>postId\<close> counts the posts that passed. The counters of English and other posts
  only feed a log line.
\<close>

fun flarum_posts ::
  "tokenizer \<Rightarrow> splitter \<Rightarrow> string list \<Rightarrow> string \<Rightarrow> string \<Rightarrow> nat \<Rightarrow> FlarumPost list
     \<Rightarrow> 'f EmbedderDocument list"
where
  "flarum_posts tokenize splitText staffSet dtitle discussionUri postId [] = []"
| "flarum_posts tokenize splitText staffSet dtitle discussionUri postId (post # rest) =
     (if detectedLang post \<noteq> ''en'' then
        flarum_posts tokenize splitText staffSet dtitle discussionUri postId rest
      else if length staffSet > 0 \<and> toLowerCase (userName post) \<notin> set staffSet then
        flarum_posts tokenize splitText staffSet dtitle discussionUri postId rest
      else
        flarum_post_document tokenize splitText dtitle
            (discussionUri @ ''/'' @ string_of_nat postId) post
          # flarum_posts tokenize splitText staffSet dtitle discussionUri (Suc postId) rest)"

definition flarum_discussion ::
  "tokenizer \<Rightarrow> splitter \<Rightarrow> string list \<Rightarrow> string \<Rightarrow> FlarumDiscussion
     \<Rightarrow> 'f EmbedderDocument list"
where
  "flarum_discussion tokenize splitText staffSet forumUrl' discussion =
     (case posts discussion of
        None \<Rightarrow> []
      | Some ps \<Rightarrow>
          flarum_posts tokenize splitText staffSet (discussion_title discussion)
            (forumUrl' @ discussionId discussion) 1 ps)"

text \<open>
  \<^verbatim>\<open>FlarumProccessor.process\<close> from the parsed export on: the documents it writes to
  the JSON file and hands to the embedder.
\<close>

definition FlarumProccessor_docs ::
  "tokenizer \<Rightarrow> splitter \<Rightarrow> FlarumSource \<Rightarrow> FlarumDiscussion list \<Rightarrow> 'f EmbedderDocument list"
where
  "FlarumProccessor_docs tokenize splitText source discussions =
     (let staffSet = map toLowerCase (staff source);
          forumUrl' = (if endsWith (forumUrl source) ''/d/'' then forumUrl source
                       else forumUrl source @ ''/d/'')
      in concat (map (flarum_discussion tokenize splitText staffSet forumUrl') discussions))"

section \<open>The heading-aware split of the markdown extractor\<close>

definition countHashAtBeginning :: "string \<Rightarrow> nat" where
  "countHashAtBeginning line = length (takeWhile (\<lambda>c. c = CHR ''#'') line)"

text \<open>
  The breadcrumb prefix \<^verbatim>\<open>doc.title + "\n" + title.join("\n") + "\n"\<close>; \<open>crumbs\<close> is
  the local array \<^verbatim>\<open>title\<close>, its last element the top.
\<close>

definition breadcrumb :: "string \<Rightarrow> string list \<Rightarrow> string" where
  "breadcrumb docTitle crumbs = docTitle @ NL @ join_nl crumbs @ NL"

text \<open>The flush of the buffer \<^verbatim>\<open>currText\<close> (lines 281 to 294, again 312 to 325).\<close>

definition flush ::
  "tokenizer \<Rightarrow> splitter \<Rightarrow> string \<Rightarrow> string list \<Rightarrow> string \<Rightarrow> 'f EmbedderDocumentSegment list"
where
  "flush tokenize splitText docTitle crumbs currText =
     (let tokenCount = length (tokenize currText) in
      if tokenCount > 500 then
        (let t = breadcrumb docTitle crumbs;
             body = trim (replace_first t currText)
         in map (\<lambda>segment. segment\<lparr>seg_text := trim (t @ seg_text segment)\<rparr>)
              (recursiveSplit tokenize splitText 1024 0 body))
      else [\<lparr>seg_text = trim currText, tokenCount = tokenCount, embedding = []\<rparr>])"

text \<open>The inner loop \<^verbatim>\<open>while (title.length > 0 && ... >= hashes) title.pop()\<close>.\<close>

function pop_title :: "nat \<Rightarrow> string list \<Rightarrow> string list" where
  "pop_title hashes crumbs =
     (if length crumbs > 0 \<and> countHashAtBeginning (last crumbs) \<ge> hashes
      then pop_title hashes (butlast crumbs) else crumbs)"
  by pat_completeness auto
termination
  by (relation "measure (\<lambda>(hashes, crumbs). length crumbs)") auto

declare pop_title.simps [simp del]

text \<open>The update of the breadcrumb stack at a heading line (lines 297 to 306).\<close>

definition update_title :: "nat \<Rightarrow> string \<Rightarrow> string list \<Rightarrow> string list" where
  "update_title hashes line crumbs =
     (if hashes > length crumbs then crumbs @ [trim line]
      else pop_title hashes crumbs @ [trim line])"

text \<open>
  The loop over the lines; the state is the segments pushed so far, the breadcrumb stack
  and the buffer.
\<close>

fun markdown_lines ::
  "tokenizer \<Rightarrow> splitter \<Rightarrow> string \<Rightarrow> string list
     \<Rightarrow> 'f EmbedderDocumentSegment list \<times> string list \<times> string
     \<Rightarrow> 'f EmbedderDocumentSegment list \<times> string list \<times> string"
where
  "markdown_lines tokenize splitText docTitle [] st = st"
| "markdown_lines tokenize splitText docTitle (line # lines) (segs, crumbs, currText) =
     (let hashes = countHashAtBeginning (trim line) in
      if hashes = 0 then
        markdown_lines tokenize splitText docTitle lines (segs, crumbs, currText @ line @ NL)
      else
        (let segs' = (if length currText > 0
                      then segs @ flush tokenize splitText docTitle crumbs currText
                      else segs);
             crumbs' = update_title hashes line crumbs
         in markdown_lines tokenize splitText docTitle lines
              (segs', crumbs', breadcrumb docTitle crumbs')))"

text \<open>The hook that \<^verbatim>\<open>MarkdownZipProccessor.process\<close> passes to the embedder.\<close>

definition markdown_hook ::
  "tokenizer \<Rightarrow> splitter \<Rightarrow> 'f EmbedderDocument \<Rightarrow> 'f EmbedderDocument"
where
  "markdown_hook tokenize splitText doc =
     (case markdown_lines tokenize splitText (title doc) (split_nl (doc_text doc))
             (segments doc, [], [])
      of (segs, crumbs, currText) \<Rightarrow>
        doc\<lparr>segments :=
              (if length currText > 0
               then segs @ flush tokenize splitText (title doc) crumbs currText
               else segs)\<rparr>)"

text \<open>The breadcrumb stack after the last line of a text.\<close>

definition final_stack :: "tokenizer \<Rightarrow> splitter \<Rightarrow> string \<Rightarrow> string \<Rightarrow> string list" where
  "final_stack tokenize splitText docTitle txt =
     fst (snd (markdown_lines tokenize splitText docTitle (split_nl txt)
                 ([] :: unit EmbedderDocumentSegment list, [], [])))"

section \<open>The sitemap extractor\<close>

record SitemapSource =
  sitemap_source_id :: string
  sitemap_url :: string
  titlePath :: string
  contentPaths :: "string list"

text \<open>
  \<^verbatim>\<open>fetchWithRetry\<close>: \<open>fetch url tries\<close> is what the network answers to the
  attempt made with \<open>tries\<close> attempts left, \<open>None\<close> when \<^verbatim>\<open>fetch\<close> rejects. A
  response is kept as what reading its body gives: \<open>None\<close> when \<^verbatim>\<open>response.text()\<close>
  rejects.
\<close>

type_synonym response = "string option"

fun fetchWithRetry :: "(string \<Rightarrow> nat \<Rightarrow> response option) \<Rightarrow> string \<Rightarrow> nat \<Rightarrow> thrown + response" where
  "fetchWithRetry fetch url' 0 = Inl (Error (''Could not fetch '' @ url') None)"
| "fetchWithRetry fetch url' (Suc tries) =
     (case fetch url' (Suc tries) of
        Some response \<Rightarrow> Inr response
      | None \<Rightarrow> fetchWithRetry fetch url' tries)"

text \<open>
  \<^verbatim>\<open>Promise.all\<close> over the batch: the responses in the order of the URLs when
  every URL was fetched. Otherwise it rejects with the rejection that came first in
  time: which one that is, among the rejections of the batch, is the parameter
  \<open>first_rejected\<close>.
\<close>

fun rejections :: "(thrown + 'a) list \<Rightarrow> thrown list" where
  "rejections [] = []"
| "rejections (Inl e # rs) = e # rejections rs"
| "rejections (Inr r # rs) = rejections rs"

fun fulfilled :: "(thrown + 'a) list \<Rightarrow> 'a list" where
  "fulfilled [] = []"
| "fulfilled (Inl e # rs) = fulfilled rs"
| "fulfilled (Inr r # rs) = r # fulfilled rs"

definition fetch_all ::
  "(thrown list \<Rightarrow> thrown) \<Rightarrow> (string \<Rightarrow> nat \<Rightarrow> response option) \<Rightarrow> string list
     \<Rightarrow> thrown + response list"
where
  "fetch_all first_rejected fetch urls =
     (let results = map (\<lambda>u. fetchWithRetry fetch u 5) urls
      in if rejections results = [] then Inr (fulfilled results)
         else Inl (first_rejected (rejections results)))"

text \<open>
  \<^verbatim>\<open>batchUrls[i]\<close>. The array of pages is as long as the batch and \<open>i\<close> never
  passes the position of the page, so the index is in range; out of range JavaScript
  gives \<^verbatim>\<open>undefined\<close>.
\<close>

definition js_nth :: "string list \<Rightarrow> nat \<Rightarrow> string" where
  "js_nth xs i = (if i < length xs then xs ! i else ''undefined'')"

text \<open>
  The document of one page. \<^verbatim>\<open>normalizeHtml\<close> and
  \<^verbatim>\<open>extractDataWithXPath\<close> rest on the HTML and XPath libraries and are
  parameters; the latter gives \<open>None\<close> where the source returns \<^verbatim>\<open>undefined\<close>.
\<close>

definition sitemap_document ::
  "(string \<Rightarrow> string) \<Rightarrow> (string \<Rightarrow> string \<Rightarrow> string list option) \<Rightarrow> SitemapSource
     \<Rightarrow> string \<Rightarrow> string \<Rightarrow> 'f EmbedderDocument"
where
  "sitemap_document normalizeHtml extractDataWithXPath source u html =
     (let normalizedHtml = normalizeHtml html;
          title' = (case extractDataWithXPath normalizedHtml (titlePath source) of
                      None \<Rightarrow> [] | Some r \<Rightarrow> join_nl r);
          text' = concat (map (\<lambda>contentPath.
                      case extractDataWithXPath normalizedHtml contentPath of
                        None \<Rightarrow> [] | Some r \<Rightarrow> join_nl r) (contentPaths source))
      in \<lparr>uri = u, title = title', doc_text = title' @ NL @ text', segments = []\<rparr>)"

text \<open>
  The loop over the pages of one batch (lines 374 to 392). \<^verbatim>\<open>!html\<close> holds of a
  body that could not be read and of an empty body; \<open>i\<close> is the counter of the source.
\<close>

fun batch_documents ::
  "(string \<Rightarrow> string) \<Rightarrow> (string \<Rightarrow> string \<Rightarrow> string list option) \<Rightarrow> SitemapSource
     \<Rightarrow> string list \<Rightarrow> nat \<Rightarrow> string option list \<Rightarrow> 'f EmbedderDocument list"
where
  "batch_documents normalizeHtml extractDataWithXPath source batchUrls i [] = []"
| "batch_documents normalizeHtml extractDataWithXPath source batchUrls i (html # htmls) =
     (case html of
        None \<Rightarrow> batch_documents normalizeHtml extractDataWithXPath source batchUrls i htmls
      | Some h \<Rightarrow>
          if h = [] then
            batch_documents normalizeHtml extractDataWithXPath source batchUrls i htmls
          else
            sitemap_document normalizeHtml extractDataWithXPath source (js_nth batchUrls i) h
              # batch_documents normalizeHtml extractDataWithXPath source batchUrls (Suc i) htmls)"

text \<open>
  The loop over the batches of 25 URLs (lines 362 to 395). \<open>shouldStop k\<close> is what the
  cancellation probe answers after batch \<open>k\<close>: the job store can change between two
  checks.
\<close>

function scrape ::
  "(thrown list \<Rightarrow> thrown) \<Rightarrow> (string \<Rightarrow> nat \<Rightarrow> response option) \<Rightarrow> (string \<Rightarrow> string)
     \<Rightarrow> (string \<Rightarrow> string \<Rightarrow> string list option) \<Rightarrow> SitemapSource \<Rightarrow> (nat \<Rightarrow> thrown + bool)
     \<Rightarrow> nat \<Rightarrow> string list \<Rightarrow> 'f EmbedderDocument list \<Rightarrow> thrown + 'f EmbedderDocument list"
where
  "scrape first_rejected fetch normalizeHtml extractDataWithXPath source shouldStop k urls
       documents =
     (if length urls > 0 then
        (let batchUrls = take 25 urls in
         case fetch_all first_rejected fetch batchUrls of
           Inl e \<Rightarrow> Inl e
         | Inr htmls \<Rightarrow>
             (let documents' = documents
                    @ batch_documents normalizeHtml extractDataWithXPath source batchUrls 0 htmls
              in case shouldStop k of
                   Inl e \<Rightarrow> Inl e
                 | Inr stop \<Rightarrow>
                     if stop then Inl (Error ''Job stopped by user'' None)
                     else scrape first_rejected fetch normalizeHtml extractDataWithXPath source
                            shouldStop (Suc k) (drop 25 urls) documents'))
      else Inr documents)"
  by pat_completeness auto
termination
  by (relation "measure (\<lambda>(first_rejected, fetch, normalizeHtml, extractDataWithXPath, source, shouldStop, k, urls, documents). length urls)") auto

declare scrape.simps [simp del]

section \<open>The pipeline: the arrays of the vector store and the batched upsert\<close>

record VectorMetadata =
  sourceId :: string
  docUri :: string
  docTitle :: string
  index :: nat
  meta_tokenCount :: nat

definition ids :: "'f EmbedderDocument list \<Rightarrow> string list" where
  "ids docs =
     concat (map (\<lambda>doc. map (\<lambda>(index', seg). uri doc @ ''|'' @ string_of_nat index')
                          (enumerate 0 (segments doc))) docs)"

definition embeddings :: "'f EmbedderDocument list \<Rightarrow> 'f list list" where
  "embeddings docs = concat (map (\<lambda>doc. map (\<lambda>seg. embedding seg) (segments doc)) docs)"

definition metadatas :: "string \<Rightarrow> 'f EmbedderDocument list \<Rightarrow> VectorMetadata list" where
  "metadatas source_id docs =
     concat (map (\<lambda>doc. map (\<lambda>(index', seg).
                            \<lparr>sourceId = source_id, docUri = uri doc, docTitle = title doc,
                             index = index', meta_tokenCount = tokenCount seg\<rparr>)
                          (enumerate 0 (segments doc))) docs)"

definition vectorDocs :: "'f EmbedderDocument list \<Rightarrow> string list" where
  "vectorDocs docs = concat (map (\<lambda>doc. map (\<lambda>seg. seg_text seg) (segments doc)) docs)"

text \<open>One call of \<^verbatim>\<open>collection.upsert\<close>, and what the loop does in order.\<close>

record 'f upsert_call =
  batch_ids :: "string list"
  batch_embeddings :: "'f list list"
  batch_metadatas :: "VectorMetadata list"
  batch_documents_of :: "string list"

datatype 'f event = Upsert "'f upsert_call" | Logged string

text \<open>
  The loop \<^verbatim>\<open>while (ids.length > 0)\<close> (lines 518 to 534): \<^verbatim>\<open>splice(0, 2000)\<close>
  takes the first 2000 entries of each array and leaves the rest.
\<close>

function upsert_loop ::
  "string \<Rightarrow> nat \<Rightarrow> nat \<Rightarrow> string list \<Rightarrow> 'f list list \<Rightarrow> VectorMetadata list \<Rightarrow> string list
     \<Rightarrow> 'f event list"
where
  "upsert_loop source_id total' numProcessed ids' embeddings' metadatas' vectorDocs' =
     (if length ids' > 0 then
        (let batchSize = 2000;
             batchIds = take batchSize ids';
             call = \<lparr>batch_ids = batchIds,
                     batch_embeddings = take batchSize embeddings',
                     batch_metadatas = take batchSize metadatas',
                     batch_documents_of = take batchSize vectorDocs'\<rparr>;
             numProcessed' = numProcessed + length batchIds
         in Upsert call
            # Logged (''Wrote '' @ string_of_nat numProcessed' @ ''/'' @ string_of_nat total'
                       @ '' segments to vector collection '' @ source_id)
            # upsert_loop source_id total' numProcessed' (drop batchSize ids')
                (drop batchSize embeddings') (drop batchSize metadatas')
                (drop batchSize vectorDocs'))
      else [])"
  by pat_completeness auto
termination
  by (relation "measure (\<lambda>(source_id, total', numProcessed, ids', embeddings', metadatas', vectorDocs'). length ids')") auto

declare upsert_loop.simps [simp del]

definition write_vectors :: "string \<Rightarrow> 'f EmbedderDocument list \<Rightarrow> 'f event list" where
  "write_vectors source_id docs =
     upsert_loop source_id (length (ids docs)) 0 (ids docs) (embeddings docs)
       (metadatas source_id docs) (vectorDocs docs)"

fun upserts :: "'f event list \<Rightarrow> 'f upsert_call list" where
  "upserts [] = []"
| "upserts (Upsert call # evs) = call # upserts evs"
| "upserts (Logged msg # evs) = upserts evs"

section \<open>The job store and the scheduler\<close>

datatype job_state = Waiting | Running | Succeeded | Failed | Stopped

record ProcessingJob =
  job_id :: string
  job_sourceId :: string
  state :: job_state
  log :: string
  createdAt :: nat
  startedAt :: "nat option"
  finishedAt :: "nat option"

text \<open>
  The collection \<^verbatim>\<open>jobs\<close> of the document database is the list of its documents.
  Every call of the driver takes a flag \<open>reachable\<close>: when it is \<open>False\<close> the call
  rejects with the error of the driver and the collection stays as it is.
\<close>

type_synonym jobs = "ProcessingJob list"

definition store_failure :: thrown where
  "store_failure = Error ''MongoNetworkError'' None"

fun update_first :: "('a \<Rightarrow> bool) \<Rightarrow> ('a \<Rightarrow> 'a) \<Rightarrow> 'a list \<Rightarrow> 'a list" where
  "update_first p f [] = []"
| "update_first p f (x # xs) = (if p x then f x # xs else x # update_first p f xs)"

definition findOne :: "string \<Rightarrow> jobs \<Rightarrow> ProcessingJob option" where
  "findOne jobId js = find (\<lambda>j. job_id j = jobId) js"

definition updateOne :: "bool \<Rightarrow> string \<Rightarrow> (ProcessingJob \<Rightarrow> ProcessingJob) \<Rightarrow> jobs \<Rightarrow> thrown + jobs" where
  "updateOne reachable jobId f js =
     (if reachable then Inr (update_first (\<lambda>j. job_id j = jobId) f js) else Inl store_failure)"

definition updateMany ::
  "bool \<Rightarrow> (ProcessingJob \<Rightarrow> bool) \<Rightarrow> (ProcessingJob \<Rightarrow> ProcessingJob) \<Rightarrow> jobs \<Rightarrow> thrown + jobs"
where
  "updateMany reachable p f js =
     (if reachable then Inr (map (\<lambda>j. if p j then f j else j) js) else Inl store_failure)"

text \<open>
  \<^verbatim>\<open>getNextJob\<close>: \<^verbatim>\<open>findOneAndUpdate\<close> on the waiting job that comes first by
  \<open>createdAt\<close> (the earliest document of the collection among equals), which is set
  running and returned as updated.
\<close>

definition oldest_waiting :: "jobs \<Rightarrow> ProcessingJob option" where
  "oldest_waiting js =
     (case filter (\<lambda>j. state j = Waiting) js of
        [] \<Rightarrow> None
      | w # ws \<Rightarrow> Some (fold (\<lambda>j best. if createdAt j < createdAt best then j else best) ws w))"

definition getNextJob :: "bool \<Rightarrow> nat \<Rightarrow> jobs \<Rightarrow> thrown + (ProcessingJob option \<times> jobs)" where
  "getNextJob reachable now js =
     (if \<not> reachable then Inl store_failure
      else (case oldest_waiting js of
              None \<Rightarrow> Inr (None, js)
            | Some w \<Rightarrow>
                (let job = w\<lparr>state := Running, startedAt := Some now\<rparr>
                 in Inr (Some job, update_first (\<lambda>j. j = w) (\<lambda>j. job) js))))"

definition updateJobLog :: "bool \<Rightarrow> string \<Rightarrow> string \<Rightarrow> jobs \<Rightarrow> thrown + jobs" where
  "updateJobLog reachable jobId log' js = updateOne reachable jobId (\<lambda>j. j\<lparr>log := log'\<rparr>) js"

text \<open>
  \<^verbatim>\<open>checkJobStatus\<close>: \<^verbatim>\<open>job?.state ?? "stopped"\<close>. A stored job always has a
  state here, so the default is reached when no document has the id.
\<close>

definition checkJobStatus :: "bool \<Rightarrow> string \<Rightarrow> jobs \<Rightarrow> thrown + job_state" where
  "checkJobStatus reachable jobId js =
     (if \<not> reachable then Inl store_failure
      else Inr (case findOne jobId js of None \<Rightarrow> Stopped | Some job \<Rightarrow> state job))"

definition finishJob :: "bool \<Rightarrow> nat \<Rightarrow> string \<Rightarrow> bool \<Rightarrow> jobs \<Rightarrow> thrown + jobs" where
  "finishJob reachable now jobId success js =
     (let newState = (if success then Succeeded else Failed)
      in updateOne reachable jobId (\<lambda>j. j\<lparr>state := newState, finishedAt := Some now\<rparr>) js)"

text \<open>
  \<^verbatim>\<open>Processor.log\<close>: the job object in memory gets the line first, then the whole
  log is written to the store. The result is the job object and what the write gave.
\<close>

definition log_message ::
  "bool \<Rightarrow> ProcessingJob \<Rightarrow> string \<Rightarrow> jobs \<Rightarrow> ProcessingJob \<times> (thrown + jobs)"
where
  "log_message reachable job msg js =
     (let job' = job\<lparr>log := log job @ msg @ NL\<rparr>
      in (job', updateJobLog reachable (job_id job') (log job') js))"

text \<open>The probe \<^verbatim>\<open>shouldStop\<close> that \<^verbatim>\<open>Processor.process\<close> gives the extractors.\<close>

definition shouldStop :: "bool \<Rightarrow> ProcessingJob \<Rightarrow> jobs \<Rightarrow> thrown + bool" where
  "shouldStop reachable job js =
     (case checkJobStatus reachable (job_id job) js of
        Inl e \<Rightarrow> Inl e
      | Inr s \<Rightarrow> Inr (s = Stopped))"

text \<open>The \<^verbatim>\<open>catch\<close> block of one job (lines 537 to 548).\<close>

definition error_text :: "thrown \<Rightarrow> string" where
  "error_text e =
     (case e of
        Error msg trace \<Rightarrow> (case trace of Some s \<Rightarrow> s | None \<Rightarrow> msg)
      | NonError j \<Rightarrow> ''Error: '' @ j)"

text \<open>\<^verbatim>\<open>try { await this.log(job, message); } catch (e) {}\<close>: the store after it.\<close>

definition log_swallowed :: "bool \<Rightarrow> ProcessingJob \<Rightarrow> string \<Rightarrow> jobs \<Rightarrow> jobs" where
  "log_swallowed reachable job msg js =
     (case snd (log_message reachable job msg js) of
        Inl e \<Rightarrow> js
      | Inr written \<Rightarrow> written)"

definition handle_job_error ::
  "bool \<Rightarrow> bool \<Rightarrow> nat \<Rightarrow> thrown \<Rightarrow> ProcessingJob \<Rightarrow> jobs \<Rightarrow> thrown + jobs"
where
  "handle_job_error log_reachable finish_reachable now e job js =
     (let message' = error_text e;
          js' = log_swallowed log_reachable job message' js
      in finishJob finish_reachable now (job_id job) False js')"

text \<open>
  One turn of the loop of \<^verbatim>\<open>Processor.process\<close>. What happens between the claim
  of the job and the end of the upserts (lines 464 to 534) is the parameter
  \<open>pipeline\<close>: from the claimed job and the store it gives the job object with the log
  lines it gained, the store as the pipeline and any other client left it, and whether
  a condition was raised. The flags and clock readings of the turn are the other fields.
  A condition that leaves the \<^verbatim>\<open>catch\<close> block of the job reaches the outer
  \<^verbatim>\<open>catch\<close>, which prints it: the store stays as the block left it.
\<close>

record turn =
  claim_reachable :: bool
  claim_time :: nat
  pipeline :: "ProcessingJob \<Rightarrow> jobs \<Rightarrow> (ProcessingJob \<times> jobs) \<times> (thrown + unit)"
  success_reachable :: bool
  success_time :: nat
  log_reachable_of :: bool
  failure_reachable :: bool
  failure_time :: nat

definition job_raised :: "turn \<Rightarrow> thrown \<Rightarrow> ProcessingJob \<Rightarrow> jobs \<Rightarrow> jobs" where
  "job_raised env e job js =
     (case handle_job_error (log_reachable_of env) (failure_reachable env) (failure_time env)
             e job js of
        Inl e' \<Rightarrow> log_swallowed (log_reachable_of env) job (error_text e) js
      | Inr js' \<Rightarrow> js')"

definition process_turn :: "turn \<Rightarrow> jobs \<Rightarrow> jobs" where
  "process_turn env js =
     (case getNextJob (claim_reachable env) (claim_time env) js of
        Inl e \<Rightarrow> js
      | Inr (None, js1) \<Rightarrow> js1
      | Inr (Some job, js1) \<Rightarrow>
          (case pipeline env job js1 of
             ((job', js2), Inl e) \<Rightarrow> job_raised env e job' js2
           | ((job', js2), Inr u) \<Rightarrow>
               (case finishJob (success_reachable env) (success_time env) (job_id job') True js2 of
                  Inl e \<Rightarrow> job_raised env e job' js2
                | Inr js3 \<Rightarrow> js3)))"

text \<open>
  The loop never ends; \<open>process envs\<close> is the store after as many turns as \<open>envs\<close> is
  long.
\<close>

fun process :: "turn list \<Rightarrow> jobs \<Rightarrow> jobs" where
  "process [] js = js"
| "process (env # envs) js = process envs (process_turn env js)"

text \<open>
  The start of the process (lines 576 to 587), from the moment the stores answer: the
  jobs found running are set stopped, then the loop starts. When the first write is
  rejected the loop never starts.
\<close>

definition recover :: "bool \<Rightarrow> nat \<Rightarrow> jobs \<Rightarrow> thrown + jobs" where
  "recover reachable now js =
     updateMany reachable (\<lambda>j. state j = Running)
       (\<lambda>j. j\<lparr>state := Stopped, finishedAt := Some now\<rparr>) js"

definition main :: "bool \<Rightarrow> nat \<Rightarrow> turn list \<Rightarrow> jobs \<Rightarrow> thrown + jobs" where
  "main reachable now envs js =
     (case recover reachable now js of
        Inl e \<Rightarrow> Inl e
      | Inr js' \<Rightarrow> Inr (process envs js'))"

section \<open>Sample parameters\<close>

text \<open>
  A tokenizer and a splitter to run the extractors on concrete inputs: one token for
  each character, and a splitter that leaves a text of at most \<open>chunkSize\<close> characters
  whole and cuts a longer one into slices of that length.
\<close>

definition char_tokens :: tokenizer where
  "char_tokens s = map of_char s"

fun slices :: "nat \<Rightarrow> nat \<Rightarrow> string \<Rightarrow> string list" where
  "slices 0 chunkSize s = []"
| "slices (Suc fuel) chunkSize s =
     (if length s \<le> chunkSize \<or> chunkSize = 0 then [s]
      else take chunkSize s # slices fuel chunkSize (drop chunkSize s))"

definition slice_split :: splitter where
  "slice_split chunkSize chunkOverlap s = slices (Suc (length s)) chunkSize s"

text \<open>Three documents with two, no and two segments.\<close>

definition sample_doc1 :: "unit EmbedderDocument" where
  "sample_doc1 =
     \<lparr>uri = ''u1'', title = ''One'', doc_text = [],
      segments = [\<lparr>seg_text = ''a'', tokenCount = 1, embedding = []\<rparr>,
                  \<lparr>seg_text = ''bc'', tokenCount = 2, embedding = [()]\<rparr>]\<rparr>"

definition sample_doc2 :: "unit EmbedderDocument" where
  "sample_doc2 = \<lparr>uri = ''u2'', title = ''Two'', doc_text = [], segments = []\<rparr>"

definition sample_doc3 :: "unit EmbedderDocument" where
  "sample_doc3 =
     \<lparr>uri = ''u3'', title = ''Three'', doc_text = [],
      segments = [\<lparr>seg_text = ''d'', tokenCount = 3, embedding = []\<rparr>,
                  \<lparr>seg_text = ''efg'', tokenCount = 4, embedding = [(), ()]\<rparr>]\<rparr>"

text \<open>A document of 4500 segments.\<close>

definition big_doc :: "unit EmbedderDocument" where
  "big_doc =
     \<lparr>uri = ''u'', title = ''Big'', doc_text = [],
      segments = replicate 4500 \<lparr>seg_text = ''x'', tokenCount = 1, embedding = []\<rparr>\<rparr>"

text \<open>
  A job as the scheduler holds it after the claim, and the same job as the store holds
  it once a user has stopped it.
\<close>

definition claimed_job :: ProcessingJob where
  "claimed_job =
     \<lparr>job_id = ''j1'', job_sourceId = ''s1'', state = Running, log = ''Scraped 25/40 sites'' @ NL,
      createdAt = 10, startedAt = Some 20, finishedAt = None\<rparr>"

definition stopped_job :: ProcessingJob where
  "stopped_job = claimed_job\<lparr>state := Stopped, log := ''Scraped 0/40 sites'' @ NL\<rparr>"

definition waiting_job :: ProcessingJob where
  "waiting_job =
     \<lparr>job_id = ''j2'', job_sourceId = ''s2'', state = Waiting, log = [],
      createdAt = 30, startedAt = None, finishedAt = None\<rparr>"

text \<open>A turn of the scheduler whose pipeline succeeds at once, with every call answered.\<close>

definition quiet_turn :: turn where
  "quiet_turn =
     \<lparr>claim_reachable = True, claim_time = 50,
      pipeline = (\<lambda>job js. ((job, js), Inr ())),
      success_reachable = True, success_time = 60,
      log_reachable_of = True, failure_reachable = True, failure_time = 70\<rparr>"

text \<open>
  A tokenizer of about four characters a token: one token, the code of its first
  character, for each group of four characters.
\<close>

definition coarse_tokens :: tokenizer where
  "coarse_tokens s = map (\<lambda>i. of_char (s ! (4 * i))) [0 ..< (length s + 3) div 4]"

text \<open>A post whose content has exactly 500 tokens of four characters.\<close>

definition borderline_post :: FlarumPost where
  "borderline_post = \<lparr>content = replicate 2000 CHR ''a'', userName = ''Alice'', detectedLang = ''en''\<rparr>"

text \<open>Two FAQ entries, of exactly 500 and of 501 tokens of one character.\<close>

definition faq_entry_500 :: FaqEntry where
  "faq_entry_500 = \<lparr>faq_id = ''1'', questions = ''Q'', answer = replicate 497 CHR ''a''\<rparr>"

definition faq_entry_501 :: FaqEntry where
  "faq_entry_501 = \<lparr>faq_id = ''2'', questions = ''R'', answer = replicate 498 CHR ''a''\<rparr>"

text \<open>
  A turn of the scheduler in which a fetch fails while the store is out of reach for the
  writes that follow the claim, and an error that carries a trace.
\<close>

definition outage_turn :: turn where
  "outage_turn =
     \<lparr>claim_reachable = True, claim_time = 50,
      pipeline = (\<lambda>job js. ((job, js), Inl (Error ''Could not fetch https://a/1'' None))),
      success_reachable = False, success_time = 60,
      log_reachable_of = False, failure_reachable = False, failure_time = 70\<rparr>"

definition traced_error :: thrown where
  "traced_error =
     Error ''Job stopped by user''
       (Some (''Error: Job stopped by user'' @ NL @ ''    at SitemapProccessor.process''))"

text \<open>
  A sitemap source, a network on which the body of the first page cannot be read while
  every other page answers with a text that names its address, and an extraction that
  gives the whole page as the title.
\<close>

definition sample_sitemap :: SitemapSource where
  "sample_sitemap =
     \<lparr>sitemap_source_id = ''s1'', sitemap_url = ''https://a/sitemap.xml'', titlePath = ''//h1'',
      contentPaths = [''//p'']\<rparr>"

definition sample_fetch :: "string \<Rightarrow> nat \<Rightarrow> response option" where
  "sample_fetch u tries = (if u = ''https://a/1'' then Some None else Some (Some (''page of '' @ u)))"

definition sample_extract :: "string \<Rightarrow> string \<Rightarrow> string list option" where
  "sample_extract html path = (if path = ''//h1'' then Some [html] else None)"

section \<open>Measures of the claims\<close>

text \<open>The two filters of the Flarum extractor, as one predicate on a post.\<close>

definition passes_filters :: "string list \<Rightarrow> FlarumPost \<Rightarrow> bool" where
  "passes_filters staffSet post \<longleftrightarrow>
     detectedLang post = ''en'' \<and> (staffSet = [] \<or> toLowerCase (userName post) \<in> set staffSet)"

text \<open>
  The sizes of the batches that a loop taking at most 2000 entries a turn makes of \<open>n\<close>
  entries.
\<close>

function batch_sizes :: "nat \<Rightarrow> nat list" where
  "batch_sizes n = (if n = 0 then [] else min 2000 n # batch_sizes (n - 2000))"
  by pat_completeness auto
termination
  by (relation "measure (\<lambda>n. n)") auto

declare batch_sizes.simps [simp del]

text \<open>
  Every upsert is followed at once by the progress line, which counts the records
  written so far, this batch included, out of the total.
\<close>

fun progress_logged :: "string \<Rightarrow> nat \<Rightarrow> nat \<Rightarrow> 'f event list \<Rightarrow> bool" where
  "progress_logged sid total' written [] = True"
| "progress_logged sid total' written (Upsert call # Logged msg # evs) =
     (msg = ''Wrote '' @ string_of_nat (written + length (batch_ids call)) @ ''/''
              @ string_of_nat total' @ '' segments to vector collection '' @ sid
      \<and> progress_logged sid total' (written + length (batch_ids call)) evs)"
| "progress_logged sid total' written evs = False"

section \<open>The arrays of the vector store\<close>

lemma length_ids: "length (ids docs) = sum_list (map (\<lambda>d. length (segments d)) docs)"
  by (induction docs) (simp_all add: ids_def)

lemma length_embeddings: "length (embeddings docs) = sum_list (map (\<lambda>d. length (segments d)) docs)"
  by (induction docs) (simp_all add: embeddings_def)

lemma length_metadatas: "length (metadatas sid docs) = sum_list (map (\<lambda>d. length (segments d)) docs)"
  by (induction docs) (simp_all add: metadatas_def)

lemma length_vectorDocs: "length (vectorDocs docs) = sum_list (map (\<lambda>d. length (segments d)) docs)"
  by (induction docs) (simp_all add: vectorDocs_def)

lemma ids_append: "ids (xs @ ys) = ids xs @ ids ys"
  by (simp add: ids_def)

lemma embeddings_append: "embeddings (xs @ ys) = embeddings xs @ embeddings ys"
  by (simp add: embeddings_def)

lemma metadatas_append: "metadatas sid (xs @ ys) = metadatas sid xs @ metadatas sid ys"
  by (simp add: metadatas_def)

lemma vectorDocs_append: "vectorDocs (xs @ ys) = vectorDocs xs @ vectorDocs ys"
  by (simp add: vectorDocs_def)

lemma ids_Cons:
  "ids (d # ds) =
     map (\<lambda>(k, seg). uri d @ ''|'' @ string_of_nat k) (enumerate 0 (segments d)) @ ids ds"
  by (simp add: ids_def)

lemma embeddings_Cons: "embeddings (d # ds) = map embedding (segments d) @ embeddings ds"
  by (simp add: embeddings_def)

lemma metadatas_Cons:
  "metadatas sid (d # ds) =
     map (\<lambda>(k, seg). \<lparr>sourceId = sid, docUri = uri d, docTitle = title d, index = k,
                       meta_tokenCount = tokenCount seg\<rparr>) (enumerate 0 (segments d))
     @ metadatas sid ds"
  by (simp add: metadatas_def)

lemma vectorDocs_Cons: "vectorDocs (d # ds) = map seg_text (segments d) @ vectorDocs ds"
  by (simp add: vectorDocs_def)

text \<open>
  C6. The four arrays have one entry for each segment of each document, so they are
  equally long. Segment \<open>k\<close> of a document stands, in all four, at the position that
  counts the segments of the documents before it plus \<open>k\<close>: documents in their order,
  segments in their order within a document. There the id is the uri of the document,
  a bar and \<open>k\<close>, and the other three arrays hold the embedding, the metadata and the
  text of that very segment.
\<close>

theorem vector_arrays_aligned:
  fixes docs :: "'f EmbedderDocument list"
  assumes split: "docs = before @ doc # after"
    and k: "k < length (segments doc)"
  shows "length (ids docs) = sum_list (map (\<lambda>d. length (segments d)) docs)
       \<and> length (embeddings docs) = length (ids docs)
       \<and> length (metadatas source_id docs) = length (ids docs)
       \<and> length (vectorDocs docs) = length (ids docs)
       \<and> (let i = sum_list (map (\<lambda>d. length (segments d)) before) + k;
               seg = segments doc ! k
           in i < length (ids docs)
            \<and> ids docs ! i = uri doc @ ''|'' @ string_of_nat k
            \<and> embeddings docs ! i = embedding seg
            \<and> metadatas source_id docs ! i =
                 \<lparr>sourceId = source_id, docUri = uri doc, docTitle = title doc, index = k,
                  meta_tokenCount = tokenCount seg\<rparr>
            \<and> vectorDocs docs ! i = seg_text seg)"
proof -
  let ?n = "sum_list (map (\<lambda>d. length (segments d)) before)"
  have a: "ids docs ! (?n + k) = uri doc @ ''|'' @ string_of_nat k"
    using k unfolding split ids_append ids_Cons
    by (simp add: nth_append length_ids nth_enumerate_eq)
  have b: "embeddings docs ! (?n + k) = embedding (segments doc ! k)"
    using k unfolding split embeddings_append embeddings_Cons
    by (simp add: nth_append length_embeddings)
  have c: "metadatas source_id docs ! (?n + k) =
             \<lparr>sourceId = source_id, docUri = uri doc, docTitle = title doc, index = k,
              meta_tokenCount = tokenCount (segments doc ! k)\<rparr>"
    using k unfolding split metadatas_append metadatas_Cons
    by (simp add: nth_append length_metadatas nth_enumerate_eq)
  have d: "vectorDocs docs ! (?n + k) = seg_text (segments doc ! k)"
    using k unfolding split vectorDocs_append vectorDocs_Cons
    by (simp add: nth_append length_vectorDocs)
  have e: "?n + k < length (ids docs)"
    using k unfolding split by (simp add: length_ids)
  show ?thesis
    using a b c d e
    by (simp add: Let_def length_ids length_embeddings length_metadatas length_vectorDocs)
qed

text \<open>The last of four segments, the second of the third document, stands at index 3.\<close>

theorem vector_arrays_aligned_witness:
  "length (ids [sample_doc1, sample_doc2, sample_doc3]) = 4 \<and>
   length (embeddings [sample_doc1, sample_doc2, sample_doc3]) = 4 \<and>
   length (metadatas ''src'' [sample_doc1, sample_doc2, sample_doc3]) = 4 \<and>
   length (vectorDocs [sample_doc1, sample_doc2, sample_doc3]) = 4 \<and>
   ids [sample_doc1, sample_doc2, sample_doc3] ! 3 = ''u3|1'' \<and>
   embeddings [sample_doc1, sample_doc2, sample_doc3] ! 3 = [(), ()] \<and>
   metadatas ''src'' [sample_doc1, sample_doc2, sample_doc3] ! 3 =
     \<lparr>sourceId = ''src'', docUri = ''u3'', docTitle = ''Three'', index = 1, meta_tokenCount = 4\<rparr> \<and>
   vectorDocs [sample_doc1, sample_doc2, sample_doc3] ! 3 = ''efg''"
proof -
  have s: "[sample_doc1, sample_doc2, sample_doc3] = [sample_doc1, sample_doc2] @ sample_doc3 # []"
    by simp
  have k: "1 < length (segments sample_doc3)"
    by (simp add: sample_doc3_def)
  have n: "sum_list (map (\<lambda>d. length (segments d)) [sample_doc1, sample_doc2]) + 1 = 3"
    by (simp add: sample_doc1_def sample_doc2_def)
  have t: "sum_list (map (\<lambda>d. length (segments d)) [sample_doc1, sample_doc2, sample_doc3]) = 4"
    by (simp add: sample_doc1_def sample_doc2_def sample_doc3_def)
  have d: "string_of_nat 1 = ''1''"
    by (simp add: string_of_nat.simps digit_char_def)
  show ?thesis
    using vector_arrays_aligned [OF s k, of "''src''"]
    unfolding Let_def n t d by (simp add: sample_doc3_def)
qed

section \<open>The batched upsert\<close>

lemma upsert_sizes:
  "map (\<lambda>c. length (batch_ids c)) (upserts (upsert_loop sid t n i e m v)) = batch_sizes (length i)"
proof (induction sid t n i e m v rule: upsert_loop.induct)
  case (1 sid t n i e m v)
  show ?case
  proof (cases "length i > 0")
    case True
    then show ?thesis
      using "1.IH" [OF True refl refl refl refl]
      by (subst upsert_loop.simps, subst batch_sizes.simps) (simp add: Let_def min_def)
  next
    case False
    then show ?thesis
      by (subst upsert_loop.simps, subst batch_sizes.simps) simp
  qed
qed

lemma batch_sizes_4500: "batch_sizes 4500 = [2000, 2000, 500]"
  by (simp add: batch_sizes.simps [of 4500] batch_sizes.simps [of 2500]
        batch_sizes.simps [of 500] batch_sizes.simps [of 0])

lemma upsert_ids:
  "concat (map batch_ids (upserts (upsert_loop sid t n i e m v))) = i"
proof (induction sid t n i e m v rule: upsert_loop.induct)
  case (1 sid t n i e m v)
  show ?case
  proof (cases "length i > 0")
    case True
    then show ?thesis
      using "1.IH" [OF True refl refl refl refl]
      by (subst upsert_loop.simps) (simp add: Let_def)
  next
    case False
    then show ?thesis
      by (subst upsert_loop.simps) simp
  qed
qed

lemma upsert_batches_bounded:
  "length e = length i \<Longrightarrow> length m = length i \<Longrightarrow> length v = length i \<Longrightarrow>
   c \<in> set (upserts (upsert_loop sid t n i e m v)) \<Longrightarrow>
   0 < length (batch_ids c) \<and> length (batch_ids c) \<le> 2000
   \<and> length (batch_embeddings c) = length (batch_ids c)
   \<and> length (batch_metadatas c) = length (batch_ids c)
   \<and> length (batch_documents_of c) = length (batch_ids c)"
proof (induction sid t n i e m v rule: upsert_loop.induct)
  case (1 sid t n i e m v)
  show ?case
  proof (cases "length i > 0")
    case True
    have mem: "c \<in> set (upserts (upsert_loop sid t n i e m v))" by (rule "1.prems"(4))
    then consider
        (head) "c = \<lparr>batch_ids = take 2000 i, batch_embeddings = take 2000 e,
                     batch_metadatas = take 2000 m, batch_documents_of = take 2000 v\<rparr>"
      | (tail) "c \<in> set (upserts (upsert_loop sid t (n + length (take 2000 i)) (drop 2000 i)
                                   (drop 2000 e) (drop 2000 m) (drop 2000 v)))"
      using True by (subst (asm) upsert_loop.simps) (auto simp: Let_def)
    then show ?thesis
    proof cases
      case head
      then show ?thesis using True "1.prems"(1-3) by simp
    next
      case tail
      show ?thesis
        using "1.IH" [OF True refl refl refl refl _ _ _ tail] "1.prems"(1-3) by simp
    qed
  next
    case False
    then show ?thesis
      using "1.prems"(4) by (subst (asm) upsert_loop.simps) simp
  qed
qed

lemma upsert_progress:
  "progress_logged sid t n (upsert_loop sid t n i e m v)"
proof (induction sid t n i e m v rule: upsert_loop.induct)
  case (1 sid t n i e m v)
  show ?case
  proof (cases "length i > 0")
    case True
    then show ?thesis
      using "1.IH" [OF True refl refl refl refl]
      by (subst upsert_loop.simps) (simp add: Let_def)
  next
    case False
    then show ?thesis
      by (subst upsert_loop.simps) simp
  qed
qed

lemma sum_batch_sizes: "sum_list (batch_sizes n) = n"
proof (induction n rule: batch_sizes.induct)
  case (1 n)
  then show ?case by (subst batch_sizes.simps) (auto simp: min_def)
qed

text \<open>
  C7. The pipeline writes the records in batches of at most 2000 (none empty, the four
  arrays of a batch equally long), and the progress line follows each batch. The batches
  put together are all the ids in their order, so the records written are as many as the
  segments. For 4500 segments there are exactly three upserts, of 2000, 2000 and 500
  records, in that order.
\<close>

theorem upsert_batches:
  fixes docs :: "'f EmbedderDocument list"
  shows "(\<forall>c \<in> set (upserts (write_vectors source_id docs)).
            0 < length (batch_ids c) \<and> length (batch_ids c) \<le> 2000
          \<and> length (batch_embeddings c) = length (batch_ids c)
          \<and> length (batch_metadatas c) = length (batch_ids c)
          \<and> length (batch_documents_of c) = length (batch_ids c))
       \<and> progress_logged source_id (length (ids docs)) 0 (write_vectors source_id docs)
       \<and> concat (map batch_ids (upserts (write_vectors source_id docs))) = ids docs
       \<and> sum_list (map (\<lambda>c. length (batch_ids c)) (upserts (write_vectors source_id docs)))
           = sum_list (map (\<lambda>d. length (segments d)) docs)
       \<and> (sum_list (map (\<lambda>d. length (segments d)) docs) = 4500 \<longrightarrow>
            map (\<lambda>c. length (batch_ids c)) (upserts (write_vectors source_id docs))
              = [2000, 2000, 500])"
proof -
  have len: "length (embeddings docs) = length (ids docs)"
     "length (metadatas source_id docs) = length (ids docs)"
     "length (vectorDocs docs) = length (ids docs)"
    by (simp_all add: length_ids length_embeddings length_metadatas length_vectorDocs)
  have a: "\<forall>c \<in> set (upserts (write_vectors source_id docs)).
            0 < length (batch_ids c) \<and> length (batch_ids c) \<le> 2000
          \<and> length (batch_embeddings c) = length (batch_ids c)
          \<and> length (batch_metadatas c) = length (batch_ids c)
          \<and> length (batch_documents_of c) = length (batch_ids c)"
    unfolding write_vectors_def using upsert_batches_bounded [OF len] by blast
  have b: "progress_logged source_id (length (ids docs)) 0 (write_vectors source_id docs)"
    unfolding write_vectors_def by (rule upsert_progress)
  have c: "concat (map batch_ids (upserts (write_vectors source_id docs))) = ids docs"
    unfolding write_vectors_def by (rule upsert_ids)
  have d: "map (\<lambda>c. length (batch_ids c)) (upserts (write_vectors source_id docs))
             = batch_sizes (sum_list (map (\<lambda>d. length (segments d)) docs))"
    unfolding write_vectors_def by (simp add: upsert_sizes length_ids)
  show ?thesis
    using a b c by (simp add: d sum_batch_sizes batch_sizes_4500)
qed


text \<open>One document of 4500 segments: three upserts of 2000, 2000 and 500 records.\<close>

theorem upsert_batches_witness:
  "map (\<lambda>c. length (batch_ids c)) (upserts (write_vectors ''src'' [big_doc])) = [2000, 2000, 500]
   \<and> sum_list (map (\<lambda>c. length (batch_ids c)) (upserts (write_vectors ''src'' [big_doc]))) = 4500
   \<and> progress_logged ''src'' 4500 0 (write_vectors ''src'' [big_doc])"
  using upsert_batches [of "''src''" "[big_doc]"]
  by (simp add: big_doc_def length_ids)

section \<open>The cancellation probe\<close>

text \<open>
  C10. When no document of the job store has the id of the job, \<^verbatim>\<open>checkJobStatus\<close>
  answers \<open>stopped\<close>, so the probe \<open>shouldStop\<close> answers as it does for a job that a user
  has stopped; and the sitemap extractor, at the check that ends the batch it is in,
  raises \<open>Job stopped by user\<close>.
\<close>

theorem deleted_job_reads_stopped:
  assumes gone: "findOne (job_id job) js = None"
  shows "checkJobStatus True (job_id job) js = Inr Stopped
       \<and> shouldStop True job js = Inr True
       \<and> (\<forall>js' j. findOne (job_id job) js' = Some j \<and> state j = Stopped \<longrightarrow>
             shouldStop True job js' = shouldStop True job js)
       \<and> (\<forall>htmls. length urls > 0 \<and> fetch_all first_rejected fetch (take 25 urls) = Inr htmls \<longrightarrow>
             scrape first_rejected fetch normalizeHtml extractDataWithXPath source
               (\<lambda>k. shouldStop True job js)
               k urls (documents :: 'f EmbedderDocument list)
             = Inl (Error ''Job stopped by user'' None))"
  using gone
  by (auto simp: checkJobStatus_def shouldStop_def scrape.simps [of _ _ _ _ _ _ _ urls] Let_def)

text \<open>
  The job is gone from the store: the probe says stop, and the scraping of one page ends
  with the cancellation.
\<close>

theorem deleted_job_reads_stopped_witness:
  "checkJobStatus True ''j1'' [waiting_job] = Inr Stopped
   \<and> shouldStop True claimed_job [waiting_job] = Inr True
   \<and> shouldStop True claimed_job [waiting_job, stopped_job] = Inr True
   \<and> scrape hd (\<lambda>u tries. Some (Some ''<p>page</p>'')) (\<lambda>h. h) (\<lambda>h path. Some [h])
         \<lparr>sitemap_source_id = ''s1'', sitemap_url = ''https://a/sitemap.xml'', titlePath = ''//h1'',
          contentPaths = [''//p'']\<rparr>
         (\<lambda>k. shouldStop True claimed_job [waiting_job]) 0 [''https://a/1'']
         ([] :: unit EmbedderDocument list)
       = Inl (Error ''Job stopped by user'' None)"
proof -
  have gone: "findOne (job_id claimed_job) [waiting_job] = None"
    by (simp add: findOne_def claimed_job_def waiting_job_def)
  have there: "findOne (job_id claimed_job) [waiting_job, stopped_job] = Some stopped_job
               \<and> state stopped_job = Stopped"
    by (simp add: findOne_def claimed_job_def waiting_job_def stopped_job_def)
  have fetched: "fetch_all hd (\<lambda>u tries. Some (Some ''<p>page</p>'')) (take 25 [''https://a/1''])
                 = Inr [Some ''<p>page</p>'']"
    by (simp add: fetch_all_def eval_nat_numeral)
  have id: "job_id claimed_job = ''j1''"
    by (simp add: claimed_job_def)
  from deleted_job_reads_stopped [OF gone, where ?'f = unit] there fetched
  show ?thesis
    unfolding id by (metis length_greater_0_conv list.distinct(1))
qed

section \<open>Recovery at the start\<close>

lemma recover_no_running:
  "recover True now js = Inr (map (\<lambda>j. if state j = Running then j\<lparr>state := Stopped, finishedAt := Some now\<rparr> else j) js)"
  by (simp add: recover_def updateMany_def)

lemma update_first_running:
  "\<forall>j \<in> set js. state j \<noteq> Running \<Longrightarrow> state job = Running \<Longrightarrow>
   j \<in> set (update_first p (\<lambda>j. job) js) \<Longrightarrow> state j = Running \<Longrightarrow> j = job"
  by (induction js) (auto split: if_splits)

lemma fold_pick_mem:
  "fold (\<lambda>j best. if createdAt j < createdAt best then j else best) ws (w0 :: ProcessingJob)
     \<in> set (w0 # ws)"
proof (induction ws arbitrary: w0)
  case Nil
  show ?case by simp
next
  case (Cons a ws)
  show ?case
    using Cons.IH [of "if createdAt a < createdAt w0 then a else w0"]
    by (auto split: if_splits)
qed

lemma oldest_waiting_mem:
  assumes a: "oldest_waiting js = Some w"
  shows "w \<in> set js \<and> state w = Waiting"
proof -
  from a obtain w0 ws where f: "filter (\<lambda>j. state j = Waiting) js = w0 # ws"
      and w: "w = fold (\<lambda>j best. if createdAt j < createdAt best then j else best) ws w0"
    by (auto simp: oldest_waiting_def split: list.splits)
  have "w \<in> set (w0 # ws)" unfolding w by (rule fold_pick_mem)
  then have "w \<in> set (filter (\<lambda>j. state j = Waiting) js)" using f by simp
  then show ?thesis by simp
qed

text \<open>
  C5. At the start of the process every job found running is set stopped, with
  \<open>finishedAt\<close> the current time, and every other job is left as it is; only then does the
  loop of the scheduler start, so the store from which it claims its first job has no
  running job. The job claimed first was waiting before the start, and after the claim
  it is the one running job.
\<close>

theorem startup_stops_running_jobs:
  assumes started: "main reachable now (env # envs) js = Inr final"
  shows "\<exists>recovered.
           recover reachable now js = Inr recovered
         \<and> recovered = map (\<lambda>j. if state j = Running
                                 then j\<lparr>state := Stopped, finishedAt := Some now\<rparr> else j) js
         \<and> (\<forall>j \<in> set recovered. state j \<noteq> Running)
         \<and> final = process envs (process_turn env recovered)
         \<and> (\<forall>job js1. getNextJob (claim_reachable env) (claim_time env) recovered
                          = Inr (Some job, js1) \<longrightarrow>
               (\<exists>w \<in> set js. state w = Waiting
                    \<and> job = w\<lparr>state := Running, startedAt := Some (claim_time env)\<rparr>)
             \<and> (\<forall>j \<in> set js1. state j = Running \<longrightarrow> j = job))"
proof -
  let ?rec = "map (\<lambda>j. if state j = Running then j\<lparr>state := Stopped, finishedAt := Some now\<rparr> else j) js"
  have r: reachable
    using started by (auto simp: main_def recover_def updateMany_def split: if_splits)
  then have rec: "recover reachable now js = Inr ?rec"
    by (simp add: recover_def updateMany_def)
  have norun: "\<forall>j \<in> set ?rec. state j \<noteq> Running" by auto
  have fin: "final = process envs (process_turn env ?rec)"
    using started rec by (simp add: main_def)
  have claim: "(\<exists>w \<in> set js. state w = Waiting
                    \<and> job = w\<lparr>state := Running, startedAt := Some (claim_time env)\<rparr>)
             \<and> (\<forall>j \<in> set js1. state j = Running \<longrightarrow> j = job)"
    if g: "getNextJob (claim_reachable env) (claim_time env) ?rec = Inr (Some job, js1)"
    for job js1
  proof -
    from g obtain w where ow: "oldest_waiting ?rec = Some w"
        and job: "job = w\<lparr>state := Running, startedAt := Some (claim_time env)\<rparr>"
        and js1: "js1 = update_first (\<lambda>j. j = w) (\<lambda>j. job) ?rec"
      by (auto simp: getNextJob_def Let_def split: if_splits option.splits)
    from oldest_waiting_mem [OF ow] have wm: "w \<in> set ?rec" and ww: "state w = Waiting" by auto
    from wm ww have "w \<in> set js" by (auto split: if_splits)
    moreover have "\<forall>j \<in> set js1. state j = Running \<longrightarrow> j = job"
      using update_first_running [OF norun, of job] job unfolding js1 by auto
    ultimately show ?thesis using ww job by blast
  qed
  show ?thesis
    using rec norun fin claim by blast
qed


text \<open>
  A store with an orphan of an earlier run and a waiting job: the orphan is stopped at
  time 40 before the first turn claims the waiting job.
\<close>

theorem startup_stops_running_jobs_witness:
  "main True 40 [quiet_turn] [claimed_job, waiting_job]
   = Inr [claimed_job\<lparr>state := Stopped, finishedAt := Some 40\<rparr>,
          waiting_job\<lparr>state := Succeeded, startedAt := Some 50, finishedAt := Some 60\<rparr>]
   \<and> recover True 40 [claimed_job, waiting_job]
   = Inr [claimed_job\<lparr>state := Stopped, finishedAt := Some 40\<rparr>, waiting_job]"
proof -
  have r: "recover True 40 [claimed_job, waiting_job]
           = Inr [claimed_job\<lparr>state := Stopped, finishedAt := Some 40\<rparr>, waiting_job]"
    by (simp add: recover_def updateMany_def claimed_job_def waiting_job_def)
  have g: "getNextJob True 50 [claimed_job\<lparr>state := Stopped, finishedAt := Some 40\<rparr>, waiting_job]
           = Inr (Some (waiting_job\<lparr>state := Running, startedAt := Some 50\<rparr>),
                  [claimed_job\<lparr>state := Stopped, finishedAt := Some 40\<rparr>,
                   waiting_job\<lparr>state := Running, startedAt := Some 50\<rparr>])"
    by (simp add: getNextJob_def oldest_waiting_def claimed_job_def waiting_job_def Let_def)
  have m: "main True 40 [quiet_turn] [claimed_job, waiting_job]
           = Inr [claimed_job\<lparr>state := Stopped, finishedAt := Some 40\<rparr>,
                  waiting_job\<lparr>state := Succeeded, startedAt := Some 50, finishedAt := Some 60\<rparr>]"
    unfolding main_def r
    by (simp add: process_turn_def quiet_turn_def g finishJob_def updateOne_def)
       (simp add: claimed_job_def waiting_job_def)
  from startup_stops_running_jobs [OF m] r show ?thesis
    using m by simp
qed

section \<open>The heading-aware split: the breadcrumb stack\<close>

lemma pop_title_Nil: "pop_title d [] = []"
  by (simp add: pop_title.simps)

lemma pop_title_snoc:
  "pop_title d (cs @ [h]) = (if countHashAtBeginning h \<ge> d then pop_title d cs else cs @ [h])"
  by (subst pop_title.simps) simp

lemma pop_title_one:
  "pop_title d [a] = (if countHashAtBeginning a \<ge> d then [] else [a])"
  using pop_title_snoc [of d "[]" a] by (simp add: pop_title_Nil)

lemma pop_title_two:
  "pop_title d [a, b] =
     (if countHashAtBeginning b \<ge> d then (if countHashAtBeginning a \<ge> d then [] else [a])
      else [a, b])"
  using pop_title_snoc [of d "[a]" b] by (simp add: pop_title_one)

lemma buffer_not_empty: "breadcrumb T c @ b @ NL \<noteq> []"
  by (simp add: breadcrumb_def)

text \<open>
  On a stack whose depths grow strictly from the bottom to the top, the inner loop pops
  every entry of depth \<open>d\<close> or more.
\<close>

lemma pop_title_increasing:
  "sorted_wrt (<) (map countHashAtBeginning crumbs) \<Longrightarrow>
   pop_title d crumbs = filter (\<lambda>h. countHashAtBeginning h < d) crumbs"
proof (induction crumbs rule: rev_induct)
  case Nil
  show ?case by (simp add: pop_title_Nil)
next
  case (snoc h cs)
  from snoc.prems have sorted: "sorted_wrt (<) (map countHashAtBeginning cs)"
      and below: "\<forall>x \<in> set cs. countHashAtBeginning x < countHashAtBeginning h"
    by (simp_all add: sorted_wrt_append)
  show ?case
  proof (cases "countHashAtBeginning h \<ge> d")
    case True
    then show ?thesis using snoc.IH [OF sorted] by (simp add: pop_title_snoc)
  next
    case False
    with below have "\<forall>x \<in> set cs. countHashAtBeginning x < d" by auto
    then have "filter (\<lambda>h. countHashAtBeginning h < d) cs = cs" by simp
    with False show ?thesis by (simp add: pop_title_snoc)
  qed
qed

text \<open>
  So the update does what C2 says on such a stack, unless the heading is deeper than the
  stack is long while the top is as deep as the heading or deeper.
\<close>

lemma update_title_increasing:
  assumes sorted: "sorted_wrt (<) (map countHashAtBeginning crumbs)"
    and guard: "length crumbs < d \<Longrightarrow> crumbs \<noteq> [] \<Longrightarrow> countHashAtBeginning (last crumbs) < d"
  shows "update_title d line crumbs
           = filter (\<lambda>h. countHashAtBeginning h < d) crumbs @ [trim line]"
proof (cases "length crumbs < d")
  case False
  then show ?thesis
    by (simp add: update_title_def pop_title_increasing [OF sorted])
next
  case True
  have "filter (\<lambda>h. countHashAtBeginning h < d) crumbs = crumbs"
  proof (cases "crumbs = []")
    case True
    then show ?thesis by simp
  next
    case False
    then obtain cs h where c: "crumbs = cs @ [h]"
      by (metis rev_exhaust)
    from guard [OF True False] have "countHashAtBeginning h < d" by (simp add: c)
    moreover from sorted have "\<forall>x \<in> set cs. countHashAtBeginning x < countHashAtBeginning h"
      by (simp add: c sorted_wrt_append)
    ultimately have "\<forall>x \<in> set crumbs. countHashAtBeginning x < d"
      by (auto simp: c)
    then show ?thesis by simp
  qed
  with True show ?thesis by (simp add: update_title_def)
qed

text \<open>
  C2 fails on the code. After the heading \<open>### X\<close> the stack holds one entry, of depth
  3. The heading \<open>## Y\<close> has depth 2, which is more than the length of the stack, so it
  is pushed with nothing popped: the entry of depth 3 stays below the new top, and the
  segment under \<open>## Y\<close> carries \<open>### X\<close> in its breadcrumb.
\<close>

theorem heading_stack_keeps_deeper_entry:
  "countHashAtBeginning (trim ''### X'') = 3
   \<and> countHashAtBeginning (trim ''## Y'') = 2
   \<and> update_title 2 ''## Y'' [''### X''] = [''### X'', ''## Y'']
   \<and> final_stack char_tokens slice_split ''Doc'' ''### X\<newline>x\<newline>## Y\<newline>y'' = [''### X'', ''## Y'']
   \<and> map seg_text (segments (markdown_hook char_tokens slice_split
         \<lparr>uri = ''u'', title = ''Doc'', doc_text = ''### X\<newline>x\<newline>## Y\<newline>y'',
          segments = ([] :: unit EmbedderDocumentSegment list)\<rparr>))
       = [''Doc\<newline>### X\<newline>x'', ''Doc\<newline>### X\<newline>## Y\<newline>y'']"
proof -
  have lines: "split_nl ''### X\<newline>x\<newline>## Y\<newline>y'' = [''### X'', ''x'', ''## Y'', ''y'']"
    by simp
  have h: "countHashAtBeginning (trim ''### X'') = 3" "countHashAtBeginning (trim ''x'') = 0"
     "countHashAtBeginning (trim ''## Y'') = 2" "countHashAtBeginning (trim ''y'') = 0"
    by (simp_all add: countHashAtBeginning_def trim_def is_whitespace_def)
  have t: "trim ''### X'' = ''### X''" "trim ''## Y'' = ''## Y''"
    by (simp_all add: trim_def is_whitespace_def)
  have u1: "update_title 3 ''### X'' [] = [''### X'']"
    by (simp add: update_title_def t)
  have u2: "update_title 2 ''## Y'' [''### X''] = [''### X'', ''## Y'']"
    by (simp add: update_title_def t)
  have fs: "final_stack char_tokens slice_split ''Doc'' ''### X\<newline>x\<newline>## Y\<newline>y''
            = [''### X'', ''## Y'']"
    by (simp add: final_stack_def lines h u1 u2 Let_def buffer_not_empty)
  have f1: "flush char_tokens slice_split ''Doc'' [''### X''] (breadcrumb ''Doc'' [''### X''] @ ''x'' @ NL)
            = [\<lparr>seg_text = ''Doc\<newline>### X\<newline>x'', tokenCount = 12, embedding = ([] :: unit list)\<rparr>]"
    by (simp add: flush_def Let_def breadcrumb_def char_tokens_def trim_def is_whitespace_def)
  have f2: "flush char_tokens slice_split ''Doc'' [''### X'', ''## Y'']
              (breadcrumb ''Doc'' [''### X'', ''## Y''] @ ''y'' @ NL)
            = [\<lparr>seg_text = ''Doc\<newline>### X\<newline>## Y\<newline>y'', tokenCount = 17, embedding = ([] :: unit list)\<rparr>]"
    by (simp add: flush_def Let_def breadcrumb_def char_tokens_def trim_def is_whitespace_def)
  have segs: "map seg_text (segments (markdown_hook char_tokens slice_split
         \<lparr>uri = ''u'', title = ''Doc'', doc_text = ''### X\<newline>x\<newline>## Y\<newline>y'',
          segments = ([] :: unit EmbedderDocumentSegment list)\<rparr>))
       = [''Doc\<newline>### X\<newline>x'', ''Doc\<newline>### X\<newline>## Y\<newline>y'']"
    using f1 f2
    by (simp add: markdown_hook_def lines h u1 u2 Let_def buffer_not_empty)
  show ?thesis
    using h(1,3) u2 fs segs by simp
qed

text \<open>
  C8. On the text \<open># A\<close>, \<open>body1\<close>, \<open>## B\<close>, \<open>body2\<close>, \<open># C\<close>, \<open>body3\<close>, one line each, with
  buffers of at most 500 tokens, the split gives exactly three segments. Their texts
  are the breadcrumb prefix (the title of the document and the open headings, a line
  each) followed by the body, trimmed; the open headings are \<open># A\<close>, then \<open># A\<close> and
  \<open>## B\<close>, then \<open># C\<close> alone: the heading \<open># C\<close> has closed both sections.
\<close>

theorem heading_split_three_segments:
  fixes tokenize :: tokenizer and splitText :: splitter and T :: string
  assumes "length (tokenize (breadcrumb T [''# A''] @ ''body1'' @ NL)) \<le> 500"
      and "length (tokenize (breadcrumb T [''# A'', ''## B''] @ ''body2'' @ NL)) \<le> 500"
      and "length (tokenize (breadcrumb T [''# C''] @ ''body3'' @ NL)) \<le> 500"
  shows "segments (markdown_hook tokenize splitText
            \<lparr>uri = u, title = T,
             doc_text = ''# A\<newline>body1\<newline>## B\<newline>body2\<newline># C\<newline>body3'',
             segments = ([] :: 'f EmbedderDocumentSegment list)\<rparr>)
         = [\<lparr>seg_text = trim (breadcrumb T [''# A''] @ ''body1'' @ NL),
             tokenCount = length (tokenize (breadcrumb T [''# A''] @ ''body1'' @ NL)),
             embedding = []\<rparr>,
            \<lparr>seg_text = trim (breadcrumb T [''# A'', ''## B''] @ ''body2'' @ NL),
             tokenCount = length (tokenize (breadcrumb T [''# A'', ''## B''] @ ''body2'' @ NL)),
             embedding = []\<rparr>,
            \<lparr>seg_text = trim (breadcrumb T [''# C''] @ ''body3'' @ NL),
             tokenCount = length (tokenize (breadcrumb T [''# C''] @ ''body3'' @ NL)),
             embedding = []\<rparr>]
       \<and> final_stack tokenize splitText T
            ''# A\<newline>body1\<newline>## B\<newline>body2\<newline># C\<newline>body3'' = [''# C'']"
proof -
  have lines: "split_nl ''# A\<newline>body1\<newline>## B\<newline>body2\<newline># C\<newline>body3''
               = [''# A'', ''body1'', ''## B'', ''body2'', ''# C'', ''body3'']"
    by simp
  have h: "countHashAtBeginning (trim ''# A'') = Suc 0" "countHashAtBeginning (trim ''body1'') = 0"
     "countHashAtBeginning (trim ''## B'') = 2" "countHashAtBeginning (trim ''body2'') = 0"
     "countHashAtBeginning (trim ''# C'') = Suc 0" "countHashAtBeginning (trim ''body3'') = 0"
    by (simp_all add: countHashAtBeginning_def trim_def is_whitespace_def)
  have t: "trim ''# A'' = ''# A''" "trim ''## B'' = ''## B''" "trim ''# C'' = ''# C''"
    by (simp_all add: trim_def is_whitespace_def)
  have u1: "update_title (Suc 0) ''# A'' [] = [''# A'']"
    by (simp add: update_title_def t)
  have u2: "update_title 2 ''## B'' [''# A''] = [''# A'', ''## B'']"
    by (simp add: update_title_def t)
  have p: "pop_title (Suc 0) [''# A'', ''## B''] = []"
    by (simp add: pop_title_two countHashAtBeginning_def)
  have u3: "update_title (Suc 0) ''# C'' [''# A'', ''## B''] = [''# C'']"
    by (simp add: update_title_def t p)
  have segs: "segments (markdown_hook tokenize splitText
            \<lparr>uri = u, title = T,
             doc_text = ''# A\<newline>body1\<newline>## B\<newline>body2\<newline># C\<newline>body3'',
             segments = ([] :: 'f EmbedderDocumentSegment list)\<rparr>)
         = [\<lparr>seg_text = trim (breadcrumb T [''# A''] @ ''body1'' @ NL),
             tokenCount = length (tokenize (breadcrumb T [''# A''] @ ''body1'' @ NL)),
             embedding = []\<rparr>,
            \<lparr>seg_text = trim (breadcrumb T [''# A'', ''## B''] @ ''body2'' @ NL),
             tokenCount = length (tokenize (breadcrumb T [''# A'', ''## B''] @ ''body2'' @ NL)),
             embedding = []\<rparr>,
            \<lparr>seg_text = trim (breadcrumb T [''# C''] @ ''body3'' @ NL),
             tokenCount = length (tokenize (breadcrumb T [''# C''] @ ''body3'' @ NL)),
             embedding = []\<rparr>]"
    using assms
    by (simp add: markdown_hook_def lines h u1 u2 u3 flush_def Let_def buffer_not_empty)
  have fs: "final_stack tokenize splitText T
            ''# A\<newline>body1\<newline>## B\<newline>body2\<newline># C\<newline>body3'' = [''# C'']"
    by (simp add: final_stack_def lines h u1 u2 u3 Let_def buffer_not_empty)
  show ?thesis
    using segs fs by simp
qed

text \<open>With the title \<open>Doc\<close> and one token a character, the three texts in full.\<close>

theorem heading_split_three_segments_witness:
  "map seg_text (segments (markdown_hook char_tokens slice_split
      \<lparr>uri = ''u'', title = ''Doc'',
       doc_text = ''# A\<newline>body1\<newline>## B\<newline>body2\<newline># C\<newline>body3'',
       segments = ([] :: unit EmbedderDocumentSegment list)\<rparr>))
   = [''Doc\<newline># A\<newline>body1'', ''Doc\<newline># A\<newline>## B\<newline>body2'', ''Doc\<newline># C\<newline>body3'']"
proof -
  have a: "length (char_tokens (breadcrumb ''Doc'' [''# A''] @ ''body1'' @ NL)) \<le> 500"
    and b: "length (char_tokens (breadcrumb ''Doc'' [''# A'', ''## B''] @ ''body2'' @ NL)) \<le> 500"
    and c: "length (char_tokens (breadcrumb ''Doc'' [''# C''] @ ''body3'' @ NL)) \<le> 500"
    by (simp_all add: char_tokens_def breadcrumb_def)
  have t: "trim (breadcrumb ''Doc'' [''# A''] @ ''body1'' @ NL) = ''Doc\<newline># A\<newline>body1''"
     "trim (breadcrumb ''Doc'' [''# A'', ''## B''] @ ''body2'' @ NL) = ''Doc\<newline># A\<newline>## B\<newline>body2''"
     "trim (breadcrumb ''Doc'' [''# C''] @ ''body3'' @ NL) = ''Doc\<newline># C\<newline>body3''"
    by (simp_all add: breadcrumb_def trim_def is_whitespace_def)
  show ?thesis
    using heading_split_three_segments
            [OF a b c, where splitText = slice_split and u = "''u''", where ?'f = unit, unfolded t]
    by simp
qed

section \<open>The sitemap extractor: documents and their URLs\<close>

lemma scrape_Nil: "scrape fr f nh ex src stop k [] docs = Inr docs"
  by (simp add: scrape.simps)

lemma scrape_batch:
  "urls \<noteq> [] \<Longrightarrow> fetch_all fr f (take 25 urls) = Inr htmls \<Longrightarrow> stop k = Inr False \<Longrightarrow>
   scrape fr f nh ex src stop k urls docs =
     scrape fr f nh ex src stop (Suc k) (drop 25 urls)
       (docs @ batch_documents nh ex src (take 25 urls) 0 htmls)"
  by (subst scrape.simps) (simp add: Let_def)

text \<open>When every page of the batch is read and not empty, each document has its own URL.\<close>

lemma batch_documents_all_read:
  "\<forall>h \<in> set hs. h \<noteq> [] \<Longrightarrow> i + length hs \<le> length batchUrls \<Longrightarrow>
   batch_documents nh ex src batchUrls i (map Some hs) =
     map (\<lambda>(u, h). sitemap_document nh ex src u h) (zip (drop i batchUrls) hs)"
proof (induction hs arbitrary: i)
  case Nil
  show ?case by simp
next
  case (Cons h hs)
  have i: "i < length batchUrls" using Cons.prems(2) by simp
  then have d: "drop i batchUrls = batchUrls ! i # drop (Suc i) batchUrls"
    by (simp add: Cons_nth_drop_Suc)
  show ?case
    using Cons.prems Cons.IH [of "Suc i"] i by (simp add: d js_nth_def)
qed

text \<open>
  C9 fails on the code. In a batch of two URLs the body of the first page cannot be read.
  The loop skips it without advancing its counter, so the document built from the second
  page gets the URL of the first: for any extraction, and in a whole run of the extractor
  on a network whose pages name their own address (no fetch fails there, so it holds
  whatever \<open>first_rejected\<close> is).
\<close>

theorem sitemap_uri_shifts_after_unread_page:
  "batch_documents nh ex src [''https://a/1'', ''https://a/2''] 0 [None, Some ''<h1>Two</h1>'']
     = [sitemap_document nh ex src ''https://a/1'' ''<h1>Two</h1>'' :: 'f EmbedderDocument]
   \<and> scrape first_rejected sample_fetch (\<lambda>h. h) sample_extract sample_sitemap (\<lambda>k. Inr False) 0
         [''https://a/1'', ''https://a/2''] ([] :: unit EmbedderDocument list)
     = Inr [\<lparr>uri = ''https://a/1'', title = ''page of https://a/2'',
             doc_text = ''page of https://a/2'' @ NL, segments = []\<rparr>]"
proof -
  have tk: "take 25 [''https://a/1'', ''https://a/2''] = [''https://a/1'', ''https://a/2'']"
    and dr: "drop 25 [''https://a/1'', ''https://a/2''] = []"
    by simp_all
  have f: "fetch_all first_rejected sample_fetch (take 25 [''https://a/1'', ''https://a/2''])
           = Inr [None, Some ''page of https://a/2'']"
    unfolding tk by (simp add: fetch_all_def eval_nat_numeral sample_fetch_def)
  have b: "batch_documents (\<lambda>h. h) sample_extract sample_sitemap
             [''https://a/1'', ''https://a/2''] 0 [None, Some ''page of https://a/2'']
           = [\<lparr>uri = ''https://a/1'', title = ''page of https://a/2'',
               doc_text = ''page of https://a/2'' @ NL,
               segments = ([] :: unit EmbedderDocumentSegment list)\<rparr>]"
    by (simp add: js_nth_def sitemap_document_def sample_extract_def sample_sitemap_def)
  have s: "scrape first_rejected sample_fetch (\<lambda>h. h) sample_extract sample_sitemap (\<lambda>k. Inr False) 0
         [''https://a/1'', ''https://a/2''] ([] :: unit EmbedderDocument list)
     = Inr [\<lparr>uri = ''https://a/1'', title = ''page of https://a/2'',
             doc_text = ''page of https://a/2'' @ NL, segments = []\<rparr>]"
    by (subst scrape_batch [OF _ f])
       (simp_all only: tk dr b scrape_Nil append_Nil list.distinct not_False_eq_True)
  show ?thesis
    using s by (simp add: js_nth_def)
qed

section \<open>The FAQ extractor: one segment or an error\<close>

text \<open>
  The hooks run through the documents in order: when no entry is too long every document
  comes back with its one segment, and the first entry that is too long ends the run
  with its error.
\<close>

lemma faq_hooks_ok:
  "\<forall>entry \<in> set es. length (tokenize (questions entry @ NL @ NL @ answer entry)) \<le> 500 \<Longrightarrow>
   embedDocuments (faq_hook tokenize) (map (faq_document sid) es) =
     Inr (map (\<lambda>entry.
                 \<lparr>uri = ''faq://'' @ sid @ ''/'' @ faq_id entry, title = questions entry,
                  doc_text = questions entry @ NL @ NL @ answer entry,
                  segments = [\<lparr>seg_text = questions entry @ NL @ NL @ answer entry,
                               tokenCount = length (tokenize (questions entry @ NL @ NL @ answer entry)),
                               embedding = []\<rparr>]\<rparr>) es)"
  by (induction es) (simp_all add: faq_hook_def faq_document_def Let_def)

lemma faq_hooks_error:
  "\<forall>entry \<in> set es. length (tokenize (questions entry @ NL @ NL @ answer entry)) \<le> 500 \<Longrightarrow>
   length (tokenize (questions bad @ NL @ NL @ answer bad)) > 500 \<Longrightarrow>
   embedDocuments (faq_hook tokenize) (map (faq_document sid) (es @ bad # rest)) =
     Inl (Error (''Token count of FAQ entry '' @ [CHR 0x27] @ questions bad @ [CHR 0x27]
                  @ '' > 500, make it smaller.'') None)"
  by (induction es) (simp_all add: faq_hook_def faq_document_def Let_def)

text \<open>
  C3. The FAQ extractor builds one document for each entry, with the text
  \<open>questions + "\n\n" + answer\<close>. On a document of more than 500 tokens the hook raises
  an error whose message holds the title of the entry (its questions); on one of 500
  tokens or fewer it gives the document exactly one segment, with the text of the
  document and its token count. So the extractor, when no entry has more than 500
  tokens, succeeds with the documents of the entries in their order, each with exactly
  that one segment; and when an entry has more than 500 tokens and none before it has,
  the extractor fails with the error that names that entry. No text is ever split.
\<close>

theorem faq_entry_one_segment_or_error:
  fixes tokenize :: tokenizer and source :: FaqSource
  shows "length (faq_documents source :: 'f EmbedderDocument list) = length (faqs source)
       \<and> (\<forall>i < length (faqs source).
            let entry = faqs source ! i;
                doc = (faq_documents source ! i :: 'f EmbedderDocument);
                n = length (tokenize (doc_text doc))
            in doc_text doc = questions entry @ NL @ NL @ answer entry \<and>
               (n > 500 \<longrightarrow>
                  faq_hook tokenize doc =
                    Inl (Error (''Token count of FAQ entry '' @ [CHR 0x27] @ questions entry
                                 @ [CHR 0x27] @ '' > 500, make it smaller.'') None)) \<and>
               (n \<le> 500 \<longrightarrow>
                  faq_hook tokenize doc =
                    Inr (doc\<lparr>segments := [\<lparr>seg_text = doc_text doc, tokenCount = n,
                                             embedding = []\<rparr>]\<rparr>)))
       \<and> ((\<forall>entry \<in> set (faqs source).
              length (tokenize (questions entry @ NL @ NL @ answer entry)) \<le> 500) \<longrightarrow>
            FaqProccessor_process tokenize source =
              Inr (map (\<lambda>entry.
                     \<lparr>uri = ''faq://'' @ faq_source_id source @ ''/'' @ faq_id entry,
                      title = questions entry,
                      doc_text = questions entry @ NL @ NL @ answer entry,
                      segments =
                        [\<lparr>seg_text = questions entry @ NL @ NL @ answer entry,
                          tokenCount = length (tokenize (questions entry @ NL @ NL @ answer entry)),
                          embedding = ([] :: 'f list)\<rparr>]\<rparr>) (faqs source)))
       \<and> (\<forall>before bad rest.
            faqs source = before @ bad # rest
            \<and> (\<forall>entry \<in> set before.
                  length (tokenize (questions entry @ NL @ NL @ answer entry)) \<le> 500)
            \<and> length (tokenize (questions bad @ NL @ NL @ answer bad)) > 500 \<longrightarrow>
            FaqProccessor_process tokenize source =
              (Inl (Error (''Token count of FAQ entry '' @ [CHR 0x27] @ questions bad
                            @ [CHR 0x27] @ '' > 500, make it smaller.'') None)
                 :: thrown + 'f EmbedderDocument list))"
proof -
  have a: "length (faq_documents source :: 'f EmbedderDocument list) = length (faqs source)"
    by (simp add: faq_documents_def)
  have b: "\<forall>i < length (faqs source).
            let entry = faqs source ! i;
                doc = (faq_documents source ! i :: 'f EmbedderDocument);
                n = length (tokenize (doc_text doc))
            in doc_text doc = questions entry @ NL @ NL @ answer entry \<and>
               (n > 500 \<longrightarrow>
                  faq_hook tokenize doc =
                    Inl (Error (''Token count of FAQ entry '' @ [CHR 0x27] @ questions entry
                                 @ [CHR 0x27] @ '' > 500, make it smaller.'') None)) \<and>
               (n \<le> 500 \<longrightarrow>
                  faq_hook tokenize doc =
                    Inr (doc\<lparr>segments := [\<lparr>seg_text = doc_text doc, tokenCount = n,
                                             embedding = []\<rparr>]\<rparr>))"
    by (simp add: faq_documents_def faq_document_def faq_hook_def Let_def)
  have c: "FaqProccessor_process tokenize source =
              Inr (map (\<lambda>entry.
                     \<lparr>uri = ''faq://'' @ faq_source_id source @ ''/'' @ faq_id entry,
                      title = questions entry,
                      doc_text = questions entry @ NL @ NL @ answer entry,
                      segments =
                        [\<lparr>seg_text = questions entry @ NL @ NL @ answer entry,
                          tokenCount = length (tokenize (questions entry @ NL @ NL @ answer entry)),
                          embedding = ([] :: 'f list)\<rparr>]\<rparr>) (faqs source))"
    if "\<forall>entry \<in> set (faqs source).
          length (tokenize (questions entry @ NL @ NL @ answer entry)) \<le> 500"
    unfolding FaqProccessor_process_def faq_documents_def
    by (rule faq_hooks_ok [OF that])
  have d: "FaqProccessor_process tokenize source =
              (Inl (Error (''Token count of FAQ entry '' @ [CHR 0x27] @ questions bad
                            @ [CHR 0x27] @ '' > 500, make it smaller.'') None)
                 :: thrown + 'f EmbedderDocument list)"
    if f: "faqs source = before @ bad # rest"
      and ok: "\<forall>entry \<in> set before.
                  length (tokenize (questions entry @ NL @ NL @ answer entry)) \<le> 500"
      and long: "length (tokenize (questions bad @ NL @ NL @ answer bad)) > 500"
    for before bad rest
    unfolding FaqProccessor_process_def faq_documents_def f
    by (rule faq_hooks_error [OF ok long])
  from a b c d show ?thesis by blast
qed

text \<open>
  A source whose one entry has exactly 500 tokens succeeds with one document of one
  segment; with an entry of 501 tokens after it, the extractor fails and names that
  entry.
\<close>

theorem faq_entry_one_segment_or_error_witness:
  "FaqProccessor_process char_tokens \<lparr>faq_source_id = ''s'', faqs = [faq_entry_500]\<rparr>
   = Inr [\<lparr>uri = ''faq://s/1'', title = ''Q'',
           doc_text = ''Q'' @ NL @ NL @ replicate 497 CHR ''a'',
           segments = [\<lparr>seg_text = ''Q'' @ NL @ NL @ replicate 497 CHR ''a'', tokenCount = 500,
                        embedding = ([] :: unit list)\<rparr>]\<rparr>]
   \<and> FaqProccessor_process char_tokens \<lparr>faq_source_id = ''s'', faqs = [faq_entry_500, faq_entry_501]\<rparr>
   = (Inl (Error (''Token count of FAQ entry '' @ [CHR 0x27] @ ''R'' @ [CHR 0x27]
                  @ '' > 500, make it smaller.'') None) :: thrown + unit EmbedderDocument list)"
proof -
  let ?one = "\<lparr>faq_source_id = ''s'', faqs = [faq_entry_500]\<rparr>"
  let ?two = "\<lparr>faq_source_id = ''s'', faqs = [faq_entry_500, faq_entry_501]\<rparr>"
  have short: "length (char_tokens (questions faq_entry_500 @ NL @ NL @ answer faq_entry_500)) \<le> 500"
    by (simp add: char_tokens_def faq_entry_500_def)
  have long: "length (char_tokens (questions faq_entry_501 @ NL @ NL @ answer faq_entry_501)) > 500"
    by (simp add: char_tokens_def faq_entry_501_def)
  have all_short: "\<forall>entry \<in> set (faqs ?one).
      length (char_tokens (questions entry @ NL @ NL @ answer entry)) \<le> 500"
    using short by simp
  have split: "faqs ?two = [faq_entry_500] @ faq_entry_501 # []
      \<and> (\<forall>entry \<in> set [faq_entry_500].
            length (char_tokens (questions entry @ NL @ NL @ answer entry)) \<le> 500)
      \<and> length (char_tokens (questions faq_entry_501 @ NL @ NL @ answer faq_entry_501)) > 500"
    using short long by simp
  have one: "FaqProccessor_process char_tokens ?one
     = Inr (map (\<lambda>entry.
                     \<lparr>uri = ''faq://'' @ faq_source_id ?one @ ''/'' @ faq_id entry,
                      title = questions entry,
                      doc_text = questions entry @ NL @ NL @ answer entry,
                      segments =
                        [\<lparr>seg_text = questions entry @ NL @ NL @ answer entry,
                          tokenCount = length (char_tokens (questions entry @ NL @ NL @ answer entry)),
                          embedding = ([] :: unit list)\<rparr>]\<rparr>) (faqs ?one))"
    using faq_entry_one_segment_or_error [of ?one char_tokens, where ?'f = unit] all_short
    by blast
  have two: "FaqProccessor_process char_tokens ?two
     = (Inl (Error (''Token count of FAQ entry '' @ [CHR 0x27] @ questions faq_entry_501
                     @ [CHR 0x27] @ '' > 500, make it smaller.'') None)
          :: thrown + unit EmbedderDocument list)"
    using faq_entry_one_segment_or_error [of ?two char_tokens, where ?'f = unit] split
    by blast
  show ?thesis
    using one two by (simp add: char_tokens_def faq_entry_500_def faq_entry_501_def)
qed

section \<open>The handler of a failed job\<close>

text \<open>What the handler writes to the log: the trace when there is one, else the message.\<close>

lemma error_text_cases:
  "error_text (Error msg (Some trace)) = trace"
  "error_text (Error msg None) = msg"
  "error_text (NonError j) = ''Error: '' @ j"
  by (simp_all add: error_text_def)

lemma findOne_update_first_same:
  "(\<And>j. job_id (f j) = job_id j) \<Longrightarrow>
   findOne jid (update_first (\<lambda>j. job_id j = jid) f js) = map_option f (findOne jid js)"
  by (induction js) (auto simp: findOne_def)

lemma findOne_update_first_other:
  "(\<And>j. job_id (f j) = job_id j) \<Longrightarrow> other \<noteq> jid \<Longrightarrow>
   findOne other (update_first (\<lambda>j. job_id j = jid) f js) = findOne other js"
  by (induction js) (auto simp: findOne_def)

lemma log_swallowed_result:
  assumes stored: "findOne (job_id job) js = Some stored"
  shows "findOne (job_id job) (log_swallowed log_reachable job msg js) =
           Some (stored\<lparr>log := (if log_reachable then log job @ msg @ NL else log stored)\<rparr>)"
  using stored
  by (cases log_reachable)
     (simp_all add: log_swallowed_def log_message_def updateJobLog_def updateOne_def
        store_failure_def Let_def findOne_update_first_same)

lemma handle_job_error_result:
  assumes stored: "findOne (job_id job) js = Some stored"
  shows "\<exists>js'. handle_job_error log_reachable True now e job js = Inr js'
          \<and> findOne (job_id job) js' =
              Some (stored\<lparr>log := (if log_reachable then log job @ error_text e @ NL else log stored),
                           state := Failed, finishedAt := Some now\<rparr>)
          \<and> (\<forall>other. other \<noteq> job_id job \<longrightarrow> findOne other js' = findOne other js)"
  using stored
  by (cases log_reachable)
     (simp_all add: handle_job_error_def log_swallowed_def log_message_def updateJobLog_def
        finishJob_def updateOne_def store_failure_def Let_def findOne_update_first_same
        findOne_update_first_other)

lemma handle_job_error_rejected:
  "handle_job_error log_reachable False now e job js = Inl store_failure"
  by (simp add: handle_job_error_def finishJob_def updateOne_def Let_def)

lemma process_turn_raised:
  assumes claimed: "getNextJob (claim_reachable env) (claim_time env) js = Inr (Some job, js1)"
    and raised: "pipeline env job js1 = ((job', js2), Inl e)"
  shows "process_turn env js = job_raised env e job' js2"
  using claimed raised by (simp add: process_turn_def)

lemma process_turn_success_write_rejected:
  assumes claimed: "getNextJob (claim_reachable env) (claim_time env) js = Inr (Some job, js1)"
    and finished: "pipeline env job js1 = ((job', js2), Inr u)"
    and rejected: "\<not> success_reachable env"
  shows "process_turn env js = job_raised env store_failure job' js2"
  using claimed finished rejected
  by (simp add: process_turn_def finishJob_def updateOne_def)

text \<open>What a turn leaves of the job once the processing has raised \<open>e\<close>.\<close>

lemma job_raised_result:
  assumes stored: "findOne (job_id job) js = Some stored"
  shows "findOne (job_id job) (job_raised env e job js) =
           Some (if failure_reachable env
                 then stored\<lparr>log := (if log_reachable_of env then log job @ error_text e @ NL
                                      else log stored),
                             state := Failed, finishedAt := Some (failure_time env)\<rparr>
                 else stored\<lparr>log := (if log_reachable_of env then log job @ error_text e @ NL
                                      else log stored)\<rparr>)"
proof (cases "failure_reachable env")
  case True
  from handle_job_error_result [OF stored, of "log_reachable_of env" "failure_time env" e]
  obtain js' where
      h: "handle_job_error (log_reachable_of env) True (failure_time env) e job js = Inr js'"
    and g: "findOne (job_id job) js' =
              Some (stored\<lparr>log := (if log_reachable_of env then log job @ error_text e @ NL
                                    else log stored),
                           state := Failed, finishedAt := Some (failure_time env)\<rparr>)"
    by blast
  from h True have "job_raised env e job js = js'"
    by (simp add: job_raised_def)
  with g True show ?thesis by simp
next
  case False
  then have "job_raised env e job js = log_swallowed (log_reachable_of env) job (error_text e) js"
    by (simp add: job_raised_def handle_job_error_rejected)
  with False log_swallowed_result [OF stored] show ?thesis by simp
qed

text \<open>
  C4, as stated, fails. The pipeline raises a fetch failure while the store is out of
  reach: the log write is rejected and dropped, the final write is rejected too, and
  the handler ends with the error of the store. The job that the turn has claimed is
  left running.
\<close>

theorem job_left_running_when_final_write_rejected:
  "handle_job_error False False 70 (Error ''Could not fetch https://a/1'' None)
     (waiting_job\<lparr>state := Running, startedAt := Some 50\<rparr>)
     [waiting_job\<lparr>state := Running, startedAt := Some 50\<rparr>]
   = Inl store_failure
   \<and> process_turn outage_turn [waiting_job]
   = [waiting_job\<lparr>state := Running, startedAt := Some 50\<rparr>]
   \<and> map state (process_turn outage_turn [waiting_job]) = [Running]"
proof -
  have g: "getNextJob True 50 [waiting_job]
           = Inr (Some (waiting_job\<lparr>state := Running, startedAt := Some 50\<rparr>),
                  [waiting_job\<lparr>state := Running, startedAt := Some 50\<rparr>])"
    by (simp add: getNextJob_def oldest_waiting_def waiting_job_def Let_def)
  have t: "process_turn outage_turn [waiting_job]
           = [waiting_job\<lparr>state := Running, startedAt := Some 50\<rparr>]"
    by (simp add: process_turn_def outage_turn_def g job_raised_def handle_job_error_rejected
          log_swallowed_def log_message_def updateJobLog_def updateOne_def Let_def)
  show ?thesis
    unfolding t by (simp add: handle_job_error_rejected)
qed

text \<open>
  C4, amended. When the processing of a claimed job raises any condition \<open>e\<close>, the
  cancellation \<open>Job stopped by user\<close> among them, the handler adds to the log of the job
  the trace of the error, or its message when it has no trace, or \<open>Error: \<close> and the JSON
  text of a value that is no error; a log write that the store rejects is dropped. Then,
  when the store accepts the final write, the job is failed with \<open>finishedAt\<close> the current
  time, it is not running, and no other job is touched. When the store rejects the final
  write, the handler ends with the error of the store, and the turn of the scheduler
  leaves the state of the job as it was. The same holds of the turn in which the
  pipeline raises \<open>e\<close>, or ends well while the write of the success is rejected, \<open>e\<close> being
  then the error of that write.
\<close>

theorem job_error_marks_failed:
  assumes stored: "findOne (job_id job) js = Some stored"
  shows "(let appended = (case e of
                            Error msg trace \<Rightarrow> (case trace of Some s \<Rightarrow> s | None \<Rightarrow> msg)
                          | NonError j \<Rightarrow> ''Error: '' @ j);
              logged = stored\<lparr>log := (if log_reachable then log job @ appended @ NL
                                       else log stored)\<rparr>
          in (\<exists>js'. handle_job_error log_reachable True now e job js = Inr js'
                \<and> findOne (job_id job) js' = Some (logged\<lparr>state := Failed, finishedAt := Some now\<rparr>)
                \<and> (\<forall>j. findOne (job_id job) js' = Some j \<longrightarrow> state j \<noteq> Running)
                \<and> (\<forall>other. other \<noteq> job_id job \<longrightarrow> findOne other js' = findOne other js))
           \<and> handle_job_error log_reachable False now e job js = Inl store_failure
           \<and> (\<forall>env js0 job0 js1.
                 getNextJob (claim_reachable env) (claim_time env) js0 = Inr (Some job0, js1)
                 \<and> (pipeline env job0 js1 = ((job, js), Inl e)
                    \<or> (pipeline env job0 js1 = ((job, js), Inr ())
                        \<and> \<not> success_reachable env \<and> e = store_failure))
                 \<and> log_reachable_of env = log_reachable \<longrightarrow>
                 findOne (job_id job) (process_turn env js0) =
                   Some (if failure_reachable env
                         then logged\<lparr>state := Failed, finishedAt := Some (failure_time env)\<rparr>
                         else logged)))"
proof -
  define appended where
    "appended = (case e of
                   Error msg trace \<Rightarrow> (case trace of Some s \<Rightarrow> s | None \<Rightarrow> msg)
                 | NonError j \<Rightarrow> ''Error: '' @ j)"
  define logged where
    "logged = stored\<lparr>log := (if log_reachable then log job @ appended @ NL else log stored)\<rparr>"
  have etext: "error_text e = appended"
    by (simp add: error_text_def appended_def)
  from handle_job_error_result [OF stored, of log_reachable now e] obtain js' where
      h: "handle_job_error log_reachable True now e job js = Inr js'"
    and g: "findOne (job_id job) js' = Some (logged\<lparr>state := Failed, finishedAt := Some now\<rparr>)"
    and o: "\<forall>other. other \<noteq> job_id job \<longrightarrow> findOne other js' = findOne other js"
    unfolding etext logged_def by blast
  have nr: "\<forall>j. findOne (job_id job) js' = Some j \<longrightarrow> state j \<noteq> Running"
    using g by auto
  have a: "\<exists>js'. handle_job_error log_reachable True now e job js = Inr js'
                \<and> findOne (job_id job) js' = Some (logged\<lparr>state := Failed, finishedAt := Some now\<rparr>)
                \<and> (\<forall>j. findOne (job_id job) js' = Some j \<longrightarrow> state j \<noteq> Running)
                \<and> (\<forall>other. other \<noteq> job_id job \<longrightarrow> findOne other js' = findOne other js)"
    using h g nr o by blast
  have b: "handle_job_error log_reachable False now e job js = Inl store_failure"
    by (rule handle_job_error_rejected)
  have c: "findOne (job_id job) (process_turn env js0) =
                   Some (if failure_reachable env
                         then logged\<lparr>state := Failed, finishedAt := Some (failure_time env)\<rparr>
                         else logged)"
    if claimed: "getNextJob (claim_reachable env) (claim_time env) js0 = Inr (Some job0, js1)"
      and raised: "pipeline env job0 js1 = ((job, js), Inl e)
                    \<or> (pipeline env job0 js1 = ((job, js), Inr ())
                        \<and> \<not> success_reachable env \<and> e = store_failure)"
      and lr: "log_reachable_of env = log_reachable"
    for env js0 job0 js1
  proof -
    have "process_turn env js0 = job_raised env e job js"
      using raised process_turn_raised [OF claimed]
        process_turn_success_write_rejected [OF claimed]
      by blast
    then show ?thesis
      using job_raised_result [OF stored, of env e] lr
      by (simp add: etext logged_def)
  qed
  show ?thesis
    using a b c unfolding Let_def appended_def [symmetric] logged_def [symmetric] by blast
qed

text \<open>
  A job that a user has stopped, whose extractor then raised the cancellation, with its
  trace: the trace goes to the log and the stored job ends failed at time 70. When the
  log write is rejected the stored log stays, and the job ends failed all the same.
\<close>

theorem job_error_marks_failed_witness:
  "handle_job_error True True 70 traced_error claimed_job [waiting_job, stopped_job]
   = Inr [waiting_job,
          stopped_job\<lparr>log := ''Scraped 25/40 sites'' @ NL @ ''Error: Job stopped by user'' @ NL
                              @ ''    at SitemapProccessor.process'' @ NL,
                      state := Failed, finishedAt := Some 70\<rparr>]
   \<and> handle_job_error False True 70 (Error ''Job stopped by user'' None) claimed_job
        [waiting_job, stopped_job]
   = Inr [waiting_job, stopped_job\<lparr>state := Failed, finishedAt := Some 70\<rparr>]"
proof -
  have s: "findOne (job_id claimed_job) [waiting_job, stopped_job] = Some stopped_job"
    by (simp add: findOne_def claimed_job_def stopped_job_def waiting_job_def)
  from job_error_marks_failed [OF s, of traced_error True 70]
       job_error_marks_failed [OF s, of "Error ''Job stopped by user'' None" False 70]
  show ?thesis
    by (simp add: handle_job_error_def log_swallowed_def log_message_def updateJobLog_def
          finishJob_def updateOne_def claimed_job_def stopped_job_def waiting_job_def
          traced_error_def error_text_def)
qed

section \<open>The Flarum extractor: where the split is decided\<close>

lemma length_coarse_tokens: "length (coarse_tokens s) = (length s + 3) div 4"
  by (simp add: coarse_tokens_def)

lemma slice_split_two:
  assumes "chunkSize < length s" "0 < chunkSize"
  shows "2 \<le> length (slice_split chunkSize chunkOverlap s)"
proof -
  obtain f where f: "length s = Suc f"
    using assms by (cases "length s") auto
  show ?thesis
    using assms by (simp add: slice_split_def f)
qed

text \<open>
  The loop over the posts keeps those that pass the two filters, in their order, and
  numbers them from \<open>postId\<close> on.
\<close>

lemma flarum_posts_eq:
  fixes tokenize :: tokenizer and splitText :: splitter
  shows "(flarum_posts tokenize splitText staffSet dtitle discussionUri postId ps
            :: 'f EmbedderDocument list) =
     map (\<lambda>(k, post). flarum_post_document tokenize splitText dtitle
                         (discussionUri @ ''/'' @ string_of_nat k) post)
         (enumerate postId (filter (passes_filters staffSet) ps))"
  by (induction ps arbitrary: postId) (auto simp: passes_filters_def)

text \<open>
  Where the content of the post and the chunk text fall on the same side of 500 tokens,
  the document of the post is split, or not, as C1 says.
\<close>

lemma flarum_post_document_agrees:
  assumes "(length (tokenize (content post)) > 500)
             = (length (tokenize (dtitle @ NL @ content post)) > 500)"
  shows "if length (tokenize (dtitle @ NL @ content post)) > 500
         then segments (flarum_post_document tokenize splitText dtitle postUri post)
                = recursiveSplit tokenize splitText 1024 0 (dtitle @ NL @ content post)
         else map seg_text (segments (flarum_post_document tokenize splitText dtitle postUri post))
                = [dtitle @ NL @ content post]"
  using assms by (simp add: flarum_post_document_def Let_def)

text \<open>
  C1 fails on the code. The content of the post has exactly 500 tokens, the chunk text
  (title, line break, content) has 501. With the decision made on the chunk text, as C1
  says, the segments are those of the flat split, two at least for 2002 characters and a
  target of 1024. The extractor counts the tokens of the content alone and emits the one
  segment of the other branch: its text has 501 tokens, its \<open>tokenCount\<close> says 500.
\<close>

theorem flarum_split_not_on_chunk_count:
  "length (coarse_tokens (content borderline_post)) = 500
   \<and> length (coarse_tokens (''T'' @ NL @ content borderline_post)) = 501
   \<and> segments (flarum_post_document coarse_tokens slice_split ''T'' ''https://f/d/7/1''
                 borderline_post :: unit EmbedderDocument)
       = [\<lparr>seg_text = ''T'' @ NL @ content borderline_post, tokenCount = 500, embedding = []\<rparr>]
   \<and> 2 \<le> length (recursiveSplit coarse_tokens slice_split 1024 0
                     (''T'' @ NL @ content borderline_post) :: unit EmbedderDocumentSegment list)
   \<and> segments (flarum_post_document coarse_tokens slice_split ''T'' ''https://f/d/7/1''
                 borderline_post :: unit EmbedderDocument)
       \<noteq> recursiveSplit coarse_tokens slice_split 1024 0 (''T'' @ NL @ content borderline_post)"
proof -
  let ?chunk = "''T'' @ NL @ content borderline_post"
  let ?doc = "flarum_post_document coarse_tokens slice_split ''T'' ''https://f/d/7/1''
                borderline_post :: unit EmbedderDocument"
  have a: "length (coarse_tokens (content borderline_post)) = 500"
    by (simp add: length_coarse_tokens borderline_post_def)
  have b: "length (coarse_tokens ?chunk) = 501"
    by (simp add: length_coarse_tokens borderline_post_def)
  have two: "2 \<le> length (recursiveSplit coarse_tokens slice_split 1024 0 ?chunk
                            :: unit EmbedderDocumentSegment list)"
    using slice_split_two [of 1024 ?chunk 0] by (simp add: recursiveSplit_def borderline_post_def)
  have one: "segments ?doc = [\<lparr>seg_text = ?chunk, tokenCount = 500, embedding = []\<rparr>]"
    by (simp add: flarum_post_document_def a Let_def)
  have len: "length (segments ?doc) = 1"
    by (simp add: one)
  have differ: "segments ?doc \<noteq> recursiveSplit coarse_tokens slice_split 1024 0 ?chunk"
  proof
    assume "segments ?doc = recursiveSplit coarse_tokens slice_split 1024 0 ?chunk"
    then have "length (segments ?doc)
                 = length (recursiveSplit coarse_tokens slice_split 1024 0 ?chunk
                             :: unit EmbedderDocumentSegment list)"
      by simp
    with two len show False by simp
  qed
  from a b one two differ show ?thesis by blast
qed

end
